theory Spec2Isabelle
  imports Complex_Main "HOL-Library.Sublist"
begin

section \<open>Python strings\<close>

text \<open>
  A Python \<open>str\<close> is modelled as a \<open>string\<close>: a list of \<open>char\<close>, each standing for one
  code point below 256. \<open>len\<close> is \<open>length\<close>, \<open>+\<close> is \<open>@\<close>, \<open>s[:n]\<close> is \<open>take n s\<close>,
  \<open>s.startswith(p)\<close> is \<open>prefix p s\<close> and \<open>s.endswith(p)\<close> is \<open>suffix p s\<close>.
\<close>

text \<open>\<open>str.isspace\<close> on one code point below 256: TAB, LF, VT, FF, CR, FS, GS, RS, US,
  space, NEL and the no-break space.\<close>

definition isspace :: "char \<Rightarrow> bool" where
  "isspace c = (let n = (of_char c :: nat) in
     (9 \<le> n \<and> n \<le> 13) \<or> (28 \<le> n \<and> n \<le> 32) \<or> n = 133 \<or> n = 160)"

text \<open>\<open>s.strip()\<close>: leading and trailing whitespace removed.\<close>

definition lstrip :: "string \<Rightarrow> string" where
  "lstrip s = dropWhile isspace s"

definition rstrip :: "string \<Rightarrow> string" where
  "rstrip s = rev (dropWhile isspace (rev s))"

definition strip :: "string \<Rightarrow> string" where
  "strip s = rstrip (lstrip s)"

text \<open>\<open>s.lower()\<close> on code points below 256: \<open>A\<close>..\<open>Z\<close> and the Latin-1 capitals
  (192..222 without the multiplication sign 215) move up by 32.\<close>

definition lower_char :: "char \<Rightarrow> char" where
  "lower_char c = (let n = (of_char c :: nat) in
     if (65 \<le> n \<and> n \<le> 90) \<or> (192 \<le> n \<and> n \<le> 222 \<and> n \<noteq> 215)
     then char_of (n + 32) else c)"

definition lower :: "string \<Rightarrow> string" where
  "lower s = map lower_char s"

text \<open>\<open>k in s\<close> on strings: \<open>k\<close> occurs in \<open>s\<close> as a contiguous substring.\<close>

fun contains :: "string \<Rightarrow> string \<Rightarrow> bool" where
  "contains k [] = (k = [])"
| "contains k (c # cs) = (prefix k (c # cs) \<or> contains k cs)"

text \<open>\<open>s.replace(old, "")\<close>: every occurrence of \<open>old\<close>, found from left to right without
  overlap, is deleted. With \<open>old\<close> empty Python returns \<open>s\<close> unchanged.\<close>

function replace_empty :: "string \<Rightarrow> string \<Rightarrow> string" where
  "replace_empty old [] = []"
| "replace_empty old (c # cs) =
     (if old \<noteq> [] \<and> prefix old (c # cs)
      then replace_empty old (drop (length old) (c # cs))
      else c # replace_empty old cs)"
  by pat_completeness auto
termination
  by (relation "measure (\<lambda>(old, s). length s)") auto

text \<open>\<open>s.split('\n')\<close>: the pieces between line feeds; always at least one piece.\<close>

fun split_acc :: "char \<Rightarrow> string \<Rightarrow> string \<Rightarrow> string list" where
  "split_acc sep cur [] = [cur]"
| "split_acc sep cur (c # cs) =
     (if c = sep then cur # split_acc sep [] cs else split_acc sep (cur @ [c]) cs)"

definition split :: "string \<Rightarrow> char \<Rightarrow> string list" where
  "split s sep = split_acc sep [] s"

text \<open>\<open>str(n)\<close> for a non-negative integer: its decimal digits.\<close>

definition digit :: "nat \<Rightarrow> char" where
  "digit d = char_of (48 + d)"

function str_nat :: "nat \<Rightarrow> string" where
  "str_nat n = (if n < 10 then [digit n] else str_nat (n div 10) @ [digit (n mod 10)])"
  by pat_completeness auto
termination
  by (relation "measure id") auto

section \<open>Values, rows and matches\<close>

text \<open>
  What \<open>json.loads\<close> returns: \<open>None\<close>, a bool, an int, a float, a str, a list or a dict.
  A dict is the list of its items. A float is finite or one of the three values that
  \<open>json.loads\<close> reads from \<open>NaN\<close>, \<open>Infinity\<close>, \<open>-Infinity\<close> and from numbers out of range.
\<close>

datatype pyfloat = Finite real | PosInfinity | NegInfinity | NaN

datatype json =
    JNull
  | JBool bool
  | JInt int
  | JFloat pyfloat
  | JStr string
  | JArr "json list"
  | JObj "(string \<times> json) list"

text \<open>Exceptions raised inside the handlers, and the HTTP error a handler answers with.\<close>

datatype py_exn =
  JSONDecodeError | RecursionError | ValueError | AttributeError | TypeError | StoreError

datatype error = HTTPException nat

text \<open>Python truthiness, as \<open>not skills\<close> tests it.\<close>

fun truthy :: "json \<Rightarrow> bool" where
  "truthy JNull = False"
| "truthy (JBool b) = b"
| "truthy (JInt n) = (n \<noteq> 0)"
| "truthy (JFloat x) = (x \<noteq> Finite 0)"
| "truthy (JStr s) = (s \<noteq> [])"
| "truthy (JArr xs) = (xs \<noteq> [])"
| "truthy (JObj kvs) = (kvs \<noteq> [])"

text \<open>\<open>v.get(key, default)\<close>: only a dict has the method.\<close>

fun dict_get :: "json \<Rightarrow> string \<Rightarrow> json \<Rightarrow> py_exn + json" where
  "dict_get (JObj kvs) key dflt = Inr (case map_of kvs key of None \<Rightarrow> dflt | Some v \<Rightarrow> v)"
| "dict_get v key dflt = Inl AttributeError"

text \<open>
  \<open>JSONResponse(content=...)\<close> encodes the content when it is built, with
  \<open>allow_nan=False\<close>: a float that is not finite, anywhere in the content, raises
  \<open>ValueError\<close>. \<open>encode_error content\<close> stands for any other exception of the encoder
  (\<open>RecursionError\<close> on nesting deeper than the interpreter allows).
\<close>

fun finite_json :: "json \<Rightarrow> bool" where
  "finite_json (JFloat x) = (case x of Finite r \<Rightarrow> True | _ \<Rightarrow> False)"
| "finite_json (JArr xs) = list_all finite_json xs"
| "finite_json (JObj kvs) = list_all finite_json (map snd kvs)"
| "finite_json v = True"

definition json_response :: "(json \<Rightarrow> py_exn option) \<Rightarrow> json \<Rightarrow> py_exn + json" where
  "json_response encode_error content =
     (if \<not> finite_json content then Inl ValueError
      else (case encode_error content of Some e \<Rightarrow> Inl e | None \<Rightarrow> Inr content))"

text \<open>The table \<open>jobs\<close> (class \<open>JobsDatabase\<close>); every column is nullable, the key and
  the timestamps are set by the store on insertion.\<close>

record jobs_database =
  job_id :: "int option"
  job_name :: "string option"
  title :: "string option"
  link :: "string option"
  description :: "string option"
  experience_level :: "string option"
  location :: "string option"
  company :: "string option"
  salary_range :: "string option"
  job_type :: "string option"
  remote_option :: "string option"
  created_at :: "nat option"
  updated_at :: "nat option"

text \<open>The request body of the create operations (class \<open>JobCreate\<close>): the title is
  required.\<close>

record job_create =
  c_job_name :: "string option"
  c_title :: string
  c_link :: "string option"
  c_description :: "string option"
  c_experience_level :: "string option"
  c_location :: "string option"
  c_company :: "string option"
  c_salary_range :: "string option"
  c_job_type :: "string option"
  c_remote_option :: "string option"

text \<open>One entry of \<open>job_matches\<close>: the dict under \<open>"job"\<close>, the score and the matched
  keywords.\<close>

record job_summary =
  s_id :: "int option"
  s_title :: "string option"
  s_company :: "string option"
  s_location :: "string option"
  s_experience_level :: "string option"
  s_job_type :: "string option"
  s_remote_option :: "string option"
  s_salary_range :: "string option"
  s_link :: "string option"
  s_description :: "string option"

record job_match =
  job :: job_summary
  relevance_score :: int
  matched_skills :: "string list"

section \<open>Reading the model's answer\<close>

text \<open>The cleaning before \<open>json.loads\<close>: the fences are deleted only when the stripped
  answer starts with one.\<close>

definition clean_response :: "string \<Rightarrow> string" where
  "clean_response response_text =
     (let clean = strip response_text in
      if prefix ''```json'' clean
      then strip (replace_empty ''```'' (replace_empty ''```json'' clean))
      else if prefix ''```'' clean
      then strip (replace_empty ''```'' clean)
      else clean)"

text \<open>The fallback of the \<open>except json.JSONDecodeError\<close> branch.\<close>

definition clean_line :: "string \<Rightarrow> string" where
  "clean_line line = strip (replace_empty '','' (replace_empty [CHR 0x22] (strip line)))"

definition keep_line :: "string \<Rightarrow> bool" where
  "keep_line line = (line \<noteq> [] \<and> 2 < length line \<and> \<not> prefix ''{'' line \<and> \<not> prefix ''}'' line)"

fun fallback_loop :: "string list \<Rightarrow> string list \<Rightarrow> string list" where
  "fallback_loop [] skills = skills"
| "fallback_loop (line # lines) skills =
     (let line' = clean_line line in
      if keep_line line' then fallback_loop lines (skills @ [line'])
      else fallback_loop lines skills)"

definition fallback_skills :: "string \<Rightarrow> string list" where
  "fallback_skills response_text = fallback_loop (split response_text (CHR 0x0A)) []"

definition fallback_analysis :: "string list \<Rightarrow> json" where
  "fallback_analysis skills = JObj
     [(''summary'', JStr ''CV analysis completed''),
      (''strengths'', JArr [JStr ''Experience in multiple technologies'']),
      (''improvements'', JArr [JStr ''Consider adding more specific achievements'']),
      (''skills'', JArr (map JStr skills)),
      (''experience_level'', JStr ''Not specified'')]"

text \<open>The inner \<open>try\<close>: \<open>loads\<close> stands for \<open>json.loads\<close>, which returns a value or
  raises; only its \<open>JSONDecodeError\<close> is caught and leads to the fallback. The result
  is the pair \<open>(cv_analysis, skills)\<close>; every other exception leaves the block.\<close>

definition parse_ai_response :: "(string \<Rightarrow> py_exn + json) \<Rightarrow> string \<Rightarrow> py_exn + (json \<times> json)" where
  "parse_ai_response loads response_text =
     (case loads (clean_response response_text) of
        Inr cv_analysis \<Rightarrow>
          (case dict_get cv_analysis ''skills'' (JArr []) of
             Inl e \<Rightarrow> Inl e
           | Inr skills \<Rightarrow> Inr (cv_analysis, skills))
      | Inl e \<Rightarrow>
          if e = JSONDecodeError
          then (let skills = fallback_skills response_text
                in Inr (fallback_analysis skills, JArr (map JStr skills)))
          else Inl e)"

section \<open>Matching jobs\<close>

text \<open>\<open>[skill.lower().strip() for skill in skills]\<close>: a list yields its elements, each of
  which must be a str to have \<open>lower\<close>; a str yields its characters, a dict its keys;
  nothing else can be iterated.\<close>

fun lower_strip_all :: "json list \<Rightarrow> py_exn + string list" where
  "lower_strip_all [] = Inr []"
| "lower_strip_all (JStr skill # skills) =
     (case lower_strip_all skills of
        Inl e \<Rightarrow> Inl e
      | Inr keywords \<Rightarrow> Inr (strip (lower skill) # keywords))"
| "lower_strip_all (v # skills) = Inl AttributeError"

fun keywords_of :: "json \<Rightarrow> py_exn + string list" where
  "keywords_of (JArr skills) = lower_strip_all skills"
| "keywords_of (JStr s) = lower_strip_all (map (\<lambda>c. JStr [c]) s)"
| "keywords_of (JObj kvs) = lower_strip_all (map (\<lambda>kv. JStr (fst kv)) kvs)"
| "keywords_of v = Inl TypeError"

text \<open>\<open>x or ''\<close> on a nullable column.\<close>

definition or_empty :: "string option \<Rightarrow> string" where
  "or_empty field = (case field of None \<Rightarrow> [] | Some s \<Rightarrow> s)"

definition job_text :: "jobs_database \<Rightarrow> string" where
  "job_text j = lower (or_empty (title j) @ '' '' @ or_empty (description j) @ '' '' @ or_empty (job_name j))"

text \<open>\<open>field and keyword in field.lower()\<close>: an absent or empty field is falsy.\<close>

definition field_has :: "string option \<Rightarrow> string \<Rightarrow> bool" where
  "field_has field keyword =
     (case field of None \<Rightarrow> False | Some s \<Rightarrow> s \<noteq> [] \<and> contains keyword (lower s))"

text \<open>The inner loop over the keywords, on the pair \<open>(matched_keywords, relevance_score)\<close>.\<close>

fun score_keywords :: "jobs_database \<Rightarrow> string list \<Rightarrow> string list \<times> int \<Rightarrow> string list \<times> int" where
  "score_keywords j [] (matched_keywords, score) = (matched_keywords, score)"
| "score_keywords j (keyword # keywords) (matched_keywords, score) =
     (if contains keyword (job_text j)
      then score_keywords j keywords
             (matched_keywords @ [keyword],
              score + (if field_has (title j) keyword then 3 else 0)
                    + (if field_has (job_name j) keyword then 2 else 0)
                    + (if field_has (description j) keyword then 1 else 0))
      else score_keywords j keywords (matched_keywords, score))"

text \<open>The description of the returned summary.\<close>

definition summary_description :: "string option \<Rightarrow> string option" where
  "summary_description d =
     (case d of
        None \<Rightarrow> None
      | Some s \<Rightarrow> if s \<noteq> [] \<and> 250 < length s then Some (take 250 s @ ''...'') else Some s)"

definition job_summary_of :: "jobs_database \<Rightarrow> job_summary" where
  "job_summary_of j =
     \<lparr>s_id = job_id j, s_title = title j, s_company = company j, s_location = location j,
      s_experience_level = experience_level j, s_job_type = job_type j,
      s_remote_option = remote_option j, s_salary_range = salary_range j, s_link = link j,
      s_description = summary_description (description j)\<rparr>"

text \<open>The body of the loop over the retrieved jobs: \<open>None\<close> when nothing is appended.\<close>

definition score_job :: "string list \<Rightarrow> jobs_database \<Rightarrow> job_match option" where
  "score_job keywords j =
     (case score_keywords j keywords ([], 0) of
        (matched_keywords, score) \<Rightarrow>
          if matched_keywords \<noteq> []
          then Some \<lparr>job = job_summary_of j, relevance_score = score,
                     matched_skills = matched_keywords\<rparr>
          else None)"

fun score_jobs :: "string list \<Rightarrow> jobs_database list \<Rightarrow> job_match list \<Rightarrow> job_match list" where
  "score_jobs keywords [] job_matches = job_matches"
| "score_jobs keywords (j # jobs) job_matches =
     (case score_job keywords j of
        None \<Rightarrow> score_jobs keywords jobs job_matches
      | Some m \<Rightarrow> score_jobs keywords jobs (job_matches @ [m]))"

text \<open>\<open>job_matches.sort(key=..., reverse=True)\<close> is a stable sort by descending key:
  a stable ascending sort on the negated score. \<open>xs[:n]\<close> counts a negative \<open>n\<close> from the
  end.\<close>

definition sort_by_relevance :: "job_match list \<Rightarrow> job_match list" where
  "sort_by_relevance job_matches = sort_key (\<lambda>m. - relevance_score m) job_matches"

definition slice_to :: "'a list \<Rightarrow> int \<Rightarrow> 'a list" where
  "slice_to xs n = (if 0 \<le> n then take (nat n) xs else take (length xs - nat (- n)) xs)"

definition rank_matches :: "job_match list \<Rightarrow> int \<Rightarrow> job_match list" where
  "rank_matches job_matches limit = slice_to (sort_by_relevance job_matches) limit"

definition job_recommendations :: "string list \<Rightarrow> jobs_database list \<Rightarrow> int \<Rightarrow> job_match list" where
  "job_recommendations keywords jobs limit = rank_matches (score_jobs keywords jobs []) limit"

section \<open>The upload endpoint\<close>

definition json_opt_str :: "string option \<Rightarrow> json" where
  "json_opt_str field = (case field of None \<Rightarrow> JNull | Some s \<Rightarrow> JStr s)"

definition json_opt_int :: "int option \<Rightarrow> json" where
  "json_opt_int field = (case field of None \<Rightarrow> JNull | Some n \<Rightarrow> JInt n)"

definition json_of_match :: "job_match \<Rightarrow> json" where
  "json_of_match m = JObj
     [(''job'', JObj
        [(''id'', json_opt_int (s_id (job m))),
         (''title'', json_opt_str (s_title (job m))),
         (''company'', json_opt_str (s_company (job m))),
         (''location'', json_opt_str (s_location (job m))),
         (''experience_level'', json_opt_str (s_experience_level (job m))),
         (''job_type'', json_opt_str (s_job_type (job m))),
         (''remote_option'', json_opt_str (s_remote_option (job m))),
         (''salary_range'', json_opt_str (s_salary_range (job m))),
         (''link'', json_opt_str (s_link (job m))),
         (''description'', json_opt_str (s_description (job m)))]),
      (''relevance_score'', JInt (relevance_score m)),
      (''matched_skills'', JArr (map JStr (matched_skills m)))]"

definition no_skills_message :: string where
  "no_skills_message = ''No skills extracted - unable to match jobs''"

definition found_message :: "nat \<Rightarrow> string" where
  "found_message n = ''Found '' @ str_nat n @ '' matching jobs for your profile!''"

text \<open>The dict under \<open>"cv_review"\<close> of the complete response.\<close>

definition cv_review_of :: "json \<Rightarrow> json \<Rightarrow> py_exn + json" where
  "cv_review_of cv_analysis skills =
     (case dict_get cv_analysis ''summary'' (JStr []) of Inl e \<Rightarrow> Inl e | Inr summary \<Rightarrow>
     (case dict_get cv_analysis ''strengths'' (JArr []) of Inl e \<Rightarrow> Inl e | Inr strengths \<Rightarrow>
     (case dict_get cv_analysis ''improvements'' (JArr []) of Inl e \<Rightarrow> Inl e | Inr improvements \<Rightarrow>
     (case dict_get cv_analysis ''experience_level'' (JStr ''Not specified'') of Inl e \<Rightarrow> Inl e | Inr level \<Rightarrow>
        Inr (JObj [(''summary'', summary), (''strengths'', strengths),
                   (''improvements'', improvements), (''experience_level'', level),
                   (''extracted_skills'', skills)])))))"

text \<open>Step 3 and the response. \<open>query keywords n\<close> stands for the store's answer to the
  \<open>ilike\<close> query with \<open>limit(n)\<close>, newest first, or its exception.\<close>

definition no_skills_content :: "json \<Rightarrow> json" where
  "no_skills_content cv_analysis =
     JObj [(''cv_review'', cv_analysis), (''matching_jobs'', JArr []),
           (''message'', JStr no_skills_message)]"

definition complete_content :: "json \<Rightarrow> job_match list \<Rightarrow> json" where
  "complete_content review job_matches =
     JObj [(''success'', JBool True), (''cv_review'', review),
           (''job_recommendations'', JObj
              [(''total_matches'', JInt (int (length job_matches))),
               (''jobs'', JArr (map json_of_match job_matches))]),
           (''message'', JStr (found_message (length job_matches)))]"

definition find_matching_jobs ::
  "(json \<Rightarrow> py_exn option) \<Rightarrow> (string list \<Rightarrow> int \<Rightarrow> py_exn + jobs_database list) \<Rightarrow>
   json \<Rightarrow> json \<Rightarrow> int \<Rightarrow> py_exn + json" where
  "find_matching_jobs encode_error query cv_analysis skills limit =
     (if \<not> truthy skills
      then json_response encode_error (no_skills_content cv_analysis)
      else (case keywords_of skills of Inl e \<Rightarrow> Inl e | Inr keywords \<Rightarrow>
           (case query keywords (limit * 3) of Inl e \<Rightarrow> Inl e | Inr jobs \<Rightarrow>
           (let job_matches = job_recommendations keywords jobs limit in
            (case cv_review_of cv_analysis skills of Inl e \<Rightarrow> Inl e | Inr review \<Rightarrow>
              json_response encode_error (complete_content review job_matches))))))"

text \<open>\<open>extract_text_from_pdf\<close>: \<open>pages\<close> holds the text of each page, \<open>None\<close> when the
  reader raises; every exception becomes the 400 answer.\<close>

fun join :: "string \<Rightarrow> string list \<Rightarrow> string" where
  "join sep [] = []"
| "join sep [x] = x"
| "join sep (x # y # ys) = x @ sep @ join sep (y # ys)"

definition extract_text_from_pdf :: "string list option \<Rightarrow> error + string" where
  "extract_text_from_pdf pages =
     (case pages of
        None \<Rightarrow> Inl (HTTPException 400)
      | Some text_content \<Rightarrow>
          (let full_text = strip (join [CHR 0x0A, CHR 0x0A] text_content)
           in if full_text = [] then Inl (HTTPException 400) else Inr full_text))"

text \<open>The handler. \<open>agent cv_text\<close> stands for the text of the model's answer or the
  exception of the call; the bounds on \<open>limit\<close> are those of its \<open>Query\<close> declaration,
  checked before the body runs.\<close>

definition upload_cv_and_get_jobs ::
  "(string \<Rightarrow> py_exn + json) \<Rightarrow> (json \<Rightarrow> py_exn option) \<Rightarrow> (string \<Rightarrow> py_exn + string) \<Rightarrow>
   (string list \<Rightarrow> int \<Rightarrow> py_exn + jobs_database list) \<Rightarrow>
   string \<Rightarrow> string list option \<Rightarrow> int \<Rightarrow> error + json" where
  "upload_cv_and_get_jobs loads encode_error agent query filename pages limit =
     (if limit < 1 \<or> 50 < limit then Inl (HTTPException 422)
      else if \<not> suffix ''.pdf'' filename then Inl (HTTPException 400)
      else (case extract_text_from_pdf pages of Inl e \<Rightarrow> Inl e | Inr cv_text \<Rightarrow>
           (case agent cv_text of Inl e \<Rightarrow> Inl (HTTPException 500) | Inr response_text \<Rightarrow>
           (case parse_ai_response loads response_text of
              Inl e \<Rightarrow> Inl (HTTPException 500)
            | Inr (cv_analysis, skills) \<Rightarrow>
                (case find_matching_jobs encode_error query cv_analysis skills limit of
                   Inl e \<Rightarrow> Inl (HTTPException 500)
                 | Inr response \<Rightarrow> Inr response)))))"

section \<open>Bulk creation\<close>

text \<open>
  The session of a request: \<open>table\<close> is the committed content of the store, \<open>working\<close>
  the content as the open transaction sees it, \<open>pending\<close> the objects added and not yet
  flushed. \<open>ins w r\<close> stands for the store's INSERT of \<open>r\<close> into content \<open>w\<close>:
  the new content, or \<open>None\<close> when the store rejects the row.
\<close>

record session =
  table :: "jobs_database list"
  working :: "jobs_database list"
  pending :: "jobs_database list"

definition new_row :: "job_create \<Rightarrow> jobs_database" where
  "new_row j =
     \<lparr>job_id = None, job_name = c_job_name j, title = Some (c_title j), link = c_link j,
      description = c_description j, experience_level = c_experience_level j,
      location = c_location j, company = c_company j, salary_range = c_salary_range j,
      job_type = c_job_type j, remote_option = c_remote_option j,
      created_at = None, updated_at = None\<rparr>"

definition add_all :: "jobs_database list \<Rightarrow> session \<Rightarrow> session" where
  "add_all rows db = db\<lparr>pending := pending db @ rows\<rparr>"

fun flush ::
  "(jobs_database list \<Rightarrow> jobs_database \<Rightarrow> jobs_database list option) \<Rightarrow>
   jobs_database list \<Rightarrow> jobs_database list \<Rightarrow> bool \<times> jobs_database list" where
  "flush ins [] w = (True, w)"
| "flush ins (r # rows) w =
     (case ins w r of None \<Rightarrow> (False, w) | Some w' \<Rightarrow> flush ins rows w')"

definition commit ::
  "(jobs_database list \<Rightarrow> jobs_database \<Rightarrow> jobs_database list option) \<Rightarrow>
   session \<Rightarrow> (py_exn + unit) \<times> session" where
  "commit ins db =
     (case flush ins (pending db) (working db) of
        (True, w) \<Rightarrow> (Inr (), db\<lparr>table := w, working := w, pending := []\<rparr>)
      | (False, w) \<Rightarrow> (Inl StoreError, db\<lparr>working := w\<rparr>))"

definition rollback :: "session \<Rightarrow> session" where
  "rollback db = db\<lparr>working := table db, pending := []\<rparr>"

definition created_message :: "nat \<Rightarrow> string" where
  "created_message n = ''Successfully created '' @ str_nat n @ '' jobs''"

definition create_jobs_bulk ::
  "(jobs_database list \<Rightarrow> jobs_database \<Rightarrow> jobs_database list option) \<Rightarrow>
   job_create list \<Rightarrow> session \<Rightarrow> (error + json) \<times> session" where
  "create_jobs_bulk ins jobs db =
     (let db_jobs = map new_row jobs;
          db1 = add_all db_jobs db
      in case commit ins db1 of
           (Inr u, db2) \<Rightarrow>
             (Inr (JObj [(''success'', JBool True),
                         (''message'', JStr (created_message (length db_jobs))),
                         (''count'', JInt (int (length db_jobs)))]), db2)
         | (Inl e, db2) \<Rightarrow> (Inl (HTTPException 500), rollback db2))"

section \<open>Notions used in the statements\<close>

text \<open>What one matched keyword adds to the score of a posting.\<close>

definition keyword_weight :: "jobs_database \<Rightarrow> string \<Rightarrow> int" where
  "keyword_weight j keyword =
     (if field_has (title j) keyword then 3 else 0)
   + (if field_has (job_name j) keyword then 2 else 0)
   + (if field_has (description j) keyword then 1 else 0)"

text \<open>The specification's wording of the weights: a keyword counts for a field when
  it is a case-insensitive substring of the field.\<close>

definition substring_ci :: "string \<Rightarrow> string option \<Rightarrow> bool" where
  "substring_ci keyword field =
     (case field of None \<Rightarrow> False | Some s \<Rightarrow> contains (lower keyword) (lower s))"

definition spec_weight :: "jobs_database \<Rightarrow> string \<Rightarrow> int" where
  "spec_weight j keyword =
     (if substring_ci keyword (title j) then 3 else 0)
   + (if substring_ci keyword (job_name j) then 2 else 0)
   + (if substring_ci keyword (description j) then 1 else 0)"

text \<open>A row with the three searched columns given and every other column empty.\<close>

definition posting :: "string option \<Rightarrow> string option \<Rightarrow> string option \<Rightarrow> jobs_database" where
  "posting t d n =
     \<lparr>job_id = Some 1, job_name = n, title = t, link = None, description = d,
      experience_level = None, location = None, company = None, salary_range = None,
      job_type = None, remote_option = None, created_at = None, updated_at = None\<rparr>"

text \<open>A request body with the title given and every other field absent.\<close>

definition titled :: "string \<Rightarrow> job_create" where
  "titled t =
     \<lparr>c_job_name = None, c_title = t, c_link = None, c_description = None,
      c_experience_level = None, c_location = None, c_company = None,
      c_salary_range = None, c_job_type = None, c_remote_option = None\<rparr>"

text \<open>A store that rejects exactly the rows whose title is longer than 255 characters
  (the width of the column) and appends every other row.\<close>

definition varchar_insert :: "jobs_database list \<Rightarrow> jobs_database \<Rightarrow> jobs_database list option" where
  "varchar_insert w r = (if 255 < length (or_empty (title r)) then None else Some (w @ [r]))"

text \<open>An answer that is not JSON, in five lines: \<open>"Python",\<close> and \<open>"C# ",\<close> (indented),
  \<open>{\<close>, \<open>ab\<close> and \<open>Docker\<close>.\<close>

definition plain_answer :: string where
  "plain_answer =
     [CHR 0x22] @ ''Python'' @ [CHR 0x22] @ '','' @ [CHR 0x0A]
   @ ''  '' @ [CHR 0x22] @ ''C# '' @ [CHR 0x22] @ '','' @ [CHR 0x0A]
   @ ''{'' @ [CHR 0x0A] @ ''ab'' @ [CHR 0x0A] @ ''Docker''"

text \<open>Sample collaborators for the runs below: an encoder that raises nothing else, an
  agent that always answers the given text, a store that holds nothing and a store
  that always returns one posting.\<close>

definition no_encode_error :: "json \<Rightarrow> py_exn option" where
  "no_encode_error content = None"

definition answering :: "string \<Rightarrow> string \<Rightarrow> py_exn + string" where
  "answering response_text cv_text = Inr response_text"

definition empty_store :: "string list \<Rightarrow> int \<Rightarrow> py_exn + jobs_database list" where
  "empty_store kws n = Inr []"

definition python_store :: "string list \<Rightarrow> int \<Rightarrow> py_exn + jobs_database list" where
  "python_store kws n = Inr [posting (Some ''Python Developer'') None None]"

text \<open>Sample answers of the model, and what \<open>json.loads\<close> makes of them: the empty
  object, the empty list, an object with the skill \<open>Cobol\<close>, an object without skills
  whose summary is \<open>NaN\<close>; every other text is taken not to be JSON.\<close>

definition quoted :: "string \<Rightarrow> string" where
  "quoted s = [CHR 0x22] @ s @ [CHR 0x22]"

definition cobol_answer :: string where
  "cobol_answer = ''{'' @ quoted ''skills'' @ '': ['' @ quoted ''Cobol'' @ '']}''"

definition nan_answer :: string where
  "nan_answer = ''{'' @ quoted ''summary'' @ '': NaN, '' @ quoted ''skills'' @ '': []}''"

definition sample_loads :: "string \<Rightarrow> py_exn + json" where
  "sample_loads s =
     (if s = ''{}'' then Inr (JObj [])
      else if s = ''[]'' then Inr (JArr [])
      else if s = cobol_answer then Inr (JObj [(''skills'', JArr [JStr ''Cobol''])])
      else if s = nan_answer then Inr (JObj [(''summary'', JFloat NaN), (''skills'', JArr [])])
      else Inl JSONDecodeError)"

text \<open>An answer of 100000 opening brackets, on which \<open>json.loads\<close> raises
  \<open>RecursionError\<close>.\<close>

definition deep_answer :: string where
  "deep_answer = replicate 100000 (CHR ''['')"

definition deep_loads :: "string \<Rightarrow> py_exn + json" where
  "deep_loads s = (if s = deep_answer then Inl RecursionError else Inl JSONDecodeError)"

section \<open>Facts about the string operations\<close>

lemma contains_sublist: "contains k s \<longleftrightarrow> sublist k s"
proof (induction s)
  case Nil
  show ?case by simp
next
  case (Cons c cs)
  show ?case by (simp only: contains.simps sublist_Cons_right Cons.IH)
qed

lemma lower_append: "lower (xs @ ys) = lower xs @ lower ys"
  by (simp add: lower_def)

section \<open>The scoring loops in closed form\<close>

lemma score_keywords_filter:
  "score_keywords j ks (acc, sc) =
     (acc @ filter (\<lambda>k. contains k (job_text j)) ks,
      sc + sum_list (map (keyword_weight j) (filter (\<lambda>k. contains k (job_text j)) ks)))"
  by (induction ks arbitrary: acc sc) (simp_all add: keyword_weight_def)

lemma score_job_Some:
  "score_job keywords j = Some m \<longleftrightarrow>
     filter (\<lambda>k. contains k (job_text j)) keywords \<noteq> [] \<and>
     m = \<lparr>job = job_summary_of j,
          relevance_score = sum_list (map (keyword_weight j) (filter (\<lambda>k. contains k (job_text j)) keywords)),
          matched_skills = filter (\<lambda>k. contains k (job_text j)) keywords\<rparr>"
  by (auto simp: score_job_def score_keywords_filter)

lemma score_jobs_map_filter:
  "score_jobs keywords jobs acc = acc @ List.map_filter (score_job keywords) jobs"
  by (induction jobs arbitrary: acc) (simp_all split: option.splits)

lemma set_slice_to: "set (slice_to xs n) \<subseteq> set xs"
  by (auto simp: slice_to_def dest: in_set_takeD)

text \<open>Every returned match is the match of one of the retrieved postings.\<close>

lemma returned_match_origin:
  assumes "m \<in> set (job_recommendations keywords jobs limit)"
  shows "\<exists>j\<in>set jobs. score_job keywords j = Some m"
proof -
  have "set (job_recommendations keywords jobs limit) \<subseteq> set (sort_by_relevance (score_jobs keywords jobs []))"
    unfolding job_recommendations_def rank_matches_def by (rule set_slice_to)
  with assms have "m \<in> set (sort_by_relevance (score_jobs keywords jobs []))"
    by (rule rev_subsetD)
  then have "m \<in> set (score_jobs keywords jobs [])"
    by (simp only: sort_by_relevance_def set_sort)
  then have "m \<in> set (List.map_filter (score_job keywords) jobs)"
    by (simp only: score_jobs_map_filter append_Nil)
  then obtain j where "j \<in> set jobs" and "score_job keywords j = Some m"
    unfolding List.map_filter_def by fastforce
  then show ?thesis by blast
qed

lemma keyword_weight_bounds: "0 \<le> keyword_weight j k \<and> keyword_weight j k \<le> 6"
  by (simp add: keyword_weight_def)

lemma sum_list_weight_le: "sum_list (map (keyword_weight j) ks) \<le> 6 * int (length ks)"
proof (induction ks)
  case Nil
  then show ?case by simp
next
  case (Cons k ks)
  have "keyword_weight j k \<le> 6" using keyword_weight_bounds by blast
  with Cons show ?case by simp
qed

lemma count_list_filter_le: "count_list (filter P xs) x \<le> count_list xs x"
  by (induction xs) auto

section \<open>Truncated descriptions\<close>

text \<open>
  Claim C4. When a posting \<open>j\<close> is included as the match \<open>m\<close> and its description \<open>d\<close>
  is longer than 250 characters, the description of the returned summary is the first
  250 characters of \<open>d\<close> followed by \<open>...\<close>: it ends with the marker and is exactly 253
  characters long, whatever \<open>d\<close> contains. By \<open>returned_match_origin\<close> every returned
  match is the match of such a posting.
\<close>

theorem description_truncated:
  assumes "score_job keywords j = Some m" and "description j = Some d" and "250 < length d"
  shows "\<exists>r. s_description (job m) = Some r \<and> r = take 250 d @ ''...''
            \<and> suffix ''...'' r \<and> length r = 253"
proof -
  from assms(1) have "s_description (job m) = summary_description (description j)"
    by (auto simp: score_job_Some job_summary_of_def)
  with assms(2,3) have "s_description (job m) = Some (take 250 d @ ''...'')"
    by (auto simp: summary_description_def)
  moreover have "suffix ''...'' (take 250 d @ ''...'')"
    by (rule suffixI) simp
  moreover from assms(3) have "length (take 250 d @ ''...'') = 253"
    by simp
  ultimately show ?thesis by blast
qed

theorem description_truncated_witness:
  "score_job [''dev''] (posting (Some ''Dev'') (Some (replicate 251 (CHR ''x''))) None)
     = Some \<lparr>job = job_summary_of (posting (Some ''Dev'') (Some (replicate 251 (CHR ''x''))) None),
             relevance_score = 3, matched_skills = [''dev'']\<rparr>
   \<and> description (posting (Some ''Dev'') (Some (replicate 251 (CHR ''x''))) None)
     = Some (replicate 251 (CHR ''x''))
   \<and> 250 < length (replicate 251 (CHR ''x''))
   \<and> s_description (job_summary_of (posting (Some ''Dev'') (Some (replicate 251 (CHR ''x''))) None))
     = Some (replicate 250 (CHR ''x'') @ ''...'')
   \<and> length (replicate 250 (CHR ''x'') @ ''...'') = 253"
proof -
  let ?d = "replicate 251 (CHR ''x'')"
  let ?j = "posting (Some ''Dev'') (Some ?d) None"
  let ?m = "\<lparr>job = job_summary_of ?j, relevance_score = 3, matched_skills = [''dev'']\<rparr>"
  have h1: "score_job [''dev''] ?j = Some ?m" by code_simp
  have h2: "description ?j = Some ?d" by (simp add: posting_def)
  have h3: "250 < length ?d" by simp
  have t: "take 250 ?d = replicate 250 (CHR ''x'')" by simp
  from description_truncated [OF h1 h2 h3] h1 h2 h3 show ?thesis
    by (simp only: t job_match.simps) simp
qed

section \<open>Matched keywords and the bound on the score\<close>

text \<open>
  Claim C10. For the match \<open>m\<close> of a posting, \<open>matched_skills\<close> is an order-preserving
  sublist of the keyword list, no keyword occurs in it more often than in the keyword
  list, and the score is at most 6 times the number of matched keywords.
\<close>

theorem matched_skills_sublist_score_bound:
  assumes "score_job keywords j = Some m"
  shows "subseq (matched_skills m) keywords
       \<and> (\<forall>k. count_list (matched_skills m) k \<le> count_list keywords k)
       \<and> relevance_score m \<le> 6 * int (length (matched_skills m))"
  using assms by (auto simp: score_job_Some count_list_filter_le sum_list_weight_le)

theorem matched_skills_sublist_score_bound_witness:
  "score_job [''python'', ''java'', ''python'', ''docker'']
       (posting (Some ''Python Backend Engineer'') (Some ''We use Docker daily'') (Some ''python-dev''))
     = Some \<lparr>job = job_summary_of
               (posting (Some ''Python Backend Engineer'') (Some ''We use Docker daily'') (Some ''python-dev'')),
             relevance_score = 11, matched_skills = [''python'', ''python'', ''docker'']\<rparr>
   \<and> subseq [''python'', ''python'', ''docker''] [''python'', ''java'', ''python'', ''docker'']
   \<and> (11::int) \<le> 6 * int (length [''python'', ''python'', ''docker''])"
proof -
  let ?j = "posting (Some ''Python Backend Engineer'') (Some ''We use Docker daily'') (Some ''python-dev'')"
  let ?m = "\<lparr>job = job_summary_of ?j, relevance_score = 11,
             matched_skills = [''python'', ''python'', ''docker'']\<rparr>"
  have h: "score_job [''python'', ''java'', ''python'', ''docker''] ?j = Some ?m" by code_simp
  from matched_skills_sublist_score_bound [OF h] h show ?thesis
    by simp
qed

section \<open>Which matches have a positive score\<close>

lemma lower_space: "lower '' '' = '' ''"
  by code_simp

lemma job_text_parts:
  "job_text j = lower (or_empty (title j)) @ '' '' @ lower (or_empty (description j)) @ '' ''
                @ lower (or_empty (job_name j))"
  unfolding job_text_def lower_append lower_space by (rule refl)

lemma field_has_sublist:
  "field_has f k \<longleftrightarrow> or_empty f \<noteq> [] \<and> sublist k (lower (or_empty f))"
  by (cases f) (simp_all add: field_has_def or_empty_def contains_sublist)

lemma sublist_append_left:
  assumes "sublist k xs"
  shows "sublist k (xs @ ys)"
proof -
  from assms obtain ps ss where "xs = ps @ k @ ss"
    unfolding sublist_def by blast
  then have "xs @ ys = ps @ k @ (ss @ ys)" by simp
  then show ?thesis unfolding sublist_def by blast
qed

lemma sublist_append_right:
  assumes "sublist k ys"
  shows "sublist k (xs @ ys)"
proof -
  from assms obtain ps ss where "ys = ps @ k @ ss"
    unfolding sublist_def by blast
  then have "xs @ ys = (xs @ ps) @ k @ ss" by simp
  then show ?thesis unfolding sublist_def by blast
qed

lemma sublist_job_text:
  assumes "sublist k (lower (or_empty (title j))) \<or> sublist k (lower (or_empty (description j)))
      \<or> sublist k (lower (or_empty (job_name j)))"
  shows "sublist k (job_text j)"
proof -
  let ?t = "lower (or_empty (title j))" and ?d = "lower (or_empty (description j))"
    and ?n = "lower (or_empty (job_name j))"
  have 1: "sublist k ?t \<Longrightarrow> sublist k (?t @ '' '' @ ?d @ '' '' @ ?n)"
    by (rule sublist_append_left)
  have 2: "sublist k ?d \<Longrightarrow> sublist k (?t @ '' '' @ ?d @ '' '' @ ?n)"
    by (intro sublist_append_right sublist_append_left)
  have 3: "sublist k ?n \<Longrightarrow> sublist k (?t @ '' '' @ ?d @ '' '' @ ?n)"
    by (intro sublist_append_right)
  from assms 1 2 3 show ?thesis
    unfolding job_text_parts by blast
qed

lemma field_hit_in_job_text:
  assumes "field_has (title j) k \<or> field_has (job_name j) k \<or> field_has (description j) k"
  shows "contains k (job_text j)"
proof -
  from assms have "sublist k (lower (or_empty (title j))) \<or> sublist k (lower (or_empty (description j)))
      \<or> sublist k (lower (or_empty (job_name j)))"
    unfolding field_has_sublist by blast
  then have "sublist k (job_text j)" by (rule sublist_job_text)
  then show ?thesis by (simp only: contains_sublist)
qed

lemma sublist_separator:
  assumes "x \<notin> set k" and "sublist k (xs @ x # ys)"
  shows "sublist k xs \<or> sublist k ys"
proof -
  from assms(2) consider "sublist k xs" | "sublist k (x # ys)"
    | k1 k2 where "k = k1 @ k2" "suffix k1 xs" "prefix k2 (x # ys)"
    unfolding sublist_append by blast
  then show ?thesis
  proof cases
    case 1
    then show ?thesis by simp
  next
    case 2
    then have "prefix k (x # ys) \<or> sublist k ys" by (simp only: sublist_Cons_right)
    moreover have "prefix k (x # ys) \<Longrightarrow> k = []"
      using assms(1) by (cases k) auto
    ultimately show ?thesis by auto
  next
    case 3
    from 3(3) assms(1) 3(1) have "k2 = []" by (cases k2) auto
    with 3(1,2) show ?thesis by auto
  qed
qed

lemma lower_eq_Nil: "lower s = [] \<longleftrightarrow> s = []"
  by (simp add: lower_def)

lemma spacefree_keyword_hits_field:
  assumes "k \<noteq> []" and "CHR '' '' \<notin> set k" and "contains k (job_text j)"
  shows "field_has (title j) k \<or> field_has (job_name j) k \<or> field_has (description j) k"
proof -
  let ?t = "lower (or_empty (title j))" and ?d = "lower (or_empty (description j))"
    and ?n = "lower (or_empty (job_name j))"
  from assms(3) have "sublist k (?t @ CHR '' '' # (?d @ CHR '' '' # ?n))"
    by (simp add: contains_sublist job_text_parts)
  with assms(2) have "sublist k ?t \<or> sublist k (?d @ CHR '' '' # ?n)"
    by (rule sublist_separator)
  moreover have "sublist k (?d @ CHR '' '' # ?n) \<Longrightarrow> sublist k ?d \<or> sublist k ?n"
    using assms(2) by (rule sublist_separator)
  ultimately have "sublist k ?t \<or> sublist k ?d \<or> sublist k ?n"
    by blast
  moreover have "sublist k (lower (or_empty f)) \<Longrightarrow> field_has f k" for f
    using assms(1) by (auto simp: field_has_sublist lower_def)
  ultimately show ?thesis by blast
qed

lemma keyword_weight_pos:
  "1 \<le> keyword_weight j k \<longleftrightarrow>
     field_has (title j) k \<or> field_has (job_name j) k \<or> field_has (description j) k"
  by (simp add: keyword_weight_def)

lemma sum_list_weight_pos:
  "1 \<le> sum_list (map (keyword_weight j) ks) \<longleftrightarrow> (\<exists>k\<in>set ks. 1 \<le> keyword_weight j k)"
proof (induction ks)
  case Nil
  show ?case by simp
next
  case (Cons k ks)
  have "0 \<le> keyword_weight j k" using keyword_weight_bounds by blast
  moreover have "0 \<le> sum_list (map (keyword_weight j) ks)"
    by (rule sum_list_nonneg) (auto simp: keyword_weight_bounds)
  ultimately show ?case using Cons by auto
qed

text \<open>
  Claim C1, as the code has it. A posting is included when at least one keyword occurs
  in the text that joins title, description and job name with spaces, whereas the score
  only counts occurrences inside one non-empty field. So for the match \<open>m\<close> of a
  posting \<open>j\<close>: \<open>matched_skills\<close> is non-empty, the score is not negative, the score is
  at least 1 exactly when some keyword occurs inside the title, the job name or the
  description, and this is the case whenever no keyword is empty or contains a space.
\<close>

theorem included_match_score:
  assumes "score_job keywords j = Some m"
  shows "matched_skills m \<noteq> [] \<and> 0 \<le> relevance_score m
       \<and> (1 \<le> relevance_score m \<longleftrightarrow>
            (\<exists>k\<in>set keywords. field_has (title j) k \<or> field_has (job_name j) k
                                \<or> field_has (description j) k))
       \<and> ((\<forall>k\<in>set keywords. k \<noteq> [] \<and> CHR '' '' \<notin> set k) \<longrightarrow> 1 \<le> relevance_score m)"
proof -
  let ?ms = "filter (\<lambda>k. contains k (job_text j)) keywords"
  from assms have ne: "?ms \<noteq> []" and ms: "matched_skills m = ?ms"
    and sc: "relevance_score m = sum_list (map (keyword_weight j) ?ms)"
    by (auto simp: score_job_Some)
  have nonneg: "0 \<le> relevance_score m"
    unfolding sc by (rule sum_list_nonneg) (auto simp: keyword_weight_bounds)
  have "(\<exists>k\<in>set ?ms. field_has (title j) k \<or> field_has (job_name j) k \<or> field_has (description j) k)
      \<longleftrightarrow> (\<exists>k\<in>set keywords. field_has (title j) k \<or> field_has (job_name j) k \<or> field_has (description j) k)"
    (is "?L \<longleftrightarrow> ?R")
  proof
    assume ?L
    then show ?R by auto
  next
    assume ?R
    then obtain k where k: "k \<in> set keywords"
      "field_has (title j) k \<or> field_has (job_name j) k \<or> field_has (description j) k"
      by blast
    from k(2) have "contains k (job_text j)" by (rule field_hit_in_job_text)
    with k(1) have "k \<in> set ?ms" by simp
    with k(2) show ?L by blast
  qed
  then have pos: "1 \<le> relevance_score m \<longleftrightarrow>
      (\<exists>k\<in>set keywords. field_has (title j) k \<or> field_has (job_name j) k \<or> field_has (description j) k)"
    by (simp only: sc sum_list_weight_pos keyword_weight_pos)
  have free_pos: "1 \<le> relevance_score m" if free: "\<forall>k\<in>set keywords. k \<noteq> [] \<and> CHR '' '' \<notin> set k"
  proof -
    from ne obtain k where k: "k \<in> set keywords" "contains k (job_text j)"
      by (auto simp: filter_empty_conv)
    from k(1) free have "k \<noteq> []" and "CHR '' '' \<notin> set k" by auto
    then have "field_has (title j) k \<or> field_has (job_name j) k \<or> field_has (description j) k"
      using k(2) by (rule spacefree_keyword_hits_field)
    with k(1) pos show ?thesis by blast
  qed
  from ne ms nonneg pos free_pos show ?thesis by simp
qed

theorem included_match_score_witness:
  "score_job [''python''] (posting (Some ''Python Dev'') None None)
     = Some \<lparr>job = job_summary_of (posting (Some ''Python Dev'') None None),
             relevance_score = 3, matched_skills = [''python'']\<rparr>
   \<and> ''python'' \<noteq> [] \<and> CHR '' '' \<notin> set ''python''
   \<and> field_has (title (posting (Some ''Python Dev'') None None)) ''python''
   \<and> [''python''] \<noteq> [] \<and> (1::int) \<le> 3"
proof -
  let ?j = "posting (Some ''Python Dev'') None None"
  let ?m = "\<lparr>job = job_summary_of ?j, relevance_score = 3, matched_skills = [''python'']\<rparr>"
  have h: "score_job [''python''] ?j = Some ?m" by code_simp
  have f: "field_has (title ?j) ''python''" by code_simp
  from included_match_score [OF h] h f show ?thesis by simp
qed

text \<open>
  The claim as stated fails: the empty keyword (from a blank skill) matches a posting
  whose title is empty with score 0, and a keyword of two words matches across the
  space that joins title and description with score 0.
\<close>

theorem included_match_score_counterexample:
  "[''''] \<noteq> ([] :: string list)
   \<and> job_recommendations [''''] [posting (Some '''') None None] 10
     = [\<lparr>job = job_summary_of (posting (Some '''') None None),
          relevance_score = 0, matched_skills = ['''']\<rparr>]
   \<and> job_recommendations [''backend developer'']
       [posting (Some ''Senior Backend'') (Some ''Developer wanted'') None] 10
     = [\<lparr>job = job_summary_of (posting (Some ''Senior Backend'') (Some ''Developer wanted'') None),
          relevance_score = 0, matched_skills = [''backend developer'']\<rparr>]"
  by code_simp

section \<open>Keywords are lower case\<close>

lemma lower_char_idem: "lower_char (lower_char c) = lower_char c"
  by (simp add: lower_char_def Let_def)

lemma lower_idem: "lower (lower s) = lower s"
  by (simp add: lower_def lower_char_idem)

lemma set_strip: "set (strip s) \<subseteq> set s"
proof -
  have "set (strip s) \<subseteq> set (lstrip s)"
    unfolding strip_def rstrip_def using set_dropWhileD by fastforce
  also have "\<dots> \<subseteq> set s"
    unfolding lstrip_def using set_dropWhileD by fastforce
  finally show ?thesis .
qed

lemma lower_strip_lower: "lower (strip (lower s)) = strip (lower s)"
proof -
  have "lower_char c = c" if "c \<in> set (strip (lower s))" for c
  proof -
    from that set_strip have "c \<in> set (lower s)" by blast
    then obtain c' where "c = lower_char c'" unfolding lower_def by auto
    then show ?thesis by (simp add: lower_char_idem)
  qed
  then show ?thesis unfolding lower_def by (simp add: map_idI)
qed

lemma lower_strip_all_lower:
  "lower_strip_all vs = Inr kws \<Longrightarrow> \<forall>k\<in>set kws. lower k = k"
proof (induction vs arbitrary: kws rule: lower_strip_all.induct)
  case 1
  then show ?case by simp
next
  case (2 skill skills)
  then show ?case by (auto simp: lower_strip_lower split: sum.splits)
qed simp_all

lemma keywords_of_lower:
  "keywords_of skills = Inr keywords \<Longrightarrow> \<forall>k\<in>set keywords. lower k = k"
  by (cases skills) (simp_all add: lower_strip_all_lower)

lemma field_has_substring_ci:
  assumes "k \<noteq> []" and "lower k = k"
  shows "field_has f k = substring_ci k f"
proof (cases f)
  case None
  then show ?thesis by (simp add: field_has_def substring_ci_def)
next
  case (Some s)
  have "\<not> contains k (lower s)" if "s = []"
    using that assms(1) by (simp add: lower_def)
  with Some assms(2) show ?thesis
    by (auto simp: field_has_def substring_ci_def)
qed

lemma keyword_weight_spec:
  assumes "k \<noteq> []" and "lower k = k"
  shows "keyword_weight j k = spec_weight j k"
  unfolding keyword_weight_def spec_weight_def
  by (simp only: field_has_substring_ci [OF assms])

section \<open>The score as a weighted sum\<close>

lemma scenario_title:
  "lower ''Python Backend Engineer'' = ''python backend engineer''"
  by code_simp

lemma scenario_python_in_title: "contains ''python'' ''python backend engineer''"
  by code_simp

lemma scenario_docker_not_in_title: "\<not> contains ''docker'' ''python backend engineer''"
  by code_simp

lemma scenario_score:
  assumes t: "title j = Some ''Python Backend Engineer''" and d: "description j = Some d"
    and n: "job_name j = None"
    and docker: "contains ''docker'' (lower d)" and python: "\<not> contains ''python'' (lower d)"
  shows "score_job [''python'', ''docker''] j
     = Some \<lparr>job = job_summary_of j, relevance_score = 4,
             matched_skills = [''python'', ''docker'']\<rparr>"
proof -
  from docker have dne: "d \<noteq> []" by (auto simp: lower_def)
  have tp: "field_has (title j) ''python''"
    by (simp add: t field_has_def scenario_title scenario_python_in_title)
  have td: "\<not> field_has (title j) ''docker''"
    by (simp add: t field_has_def scenario_title scenario_docker_not_in_title)
  have np: "\<not> field_has (job_name j) k" for k
    by (simp add: n field_has_def)
  have dd: "field_has (description j) ''docker''"
    using docker dne by (simp add: d field_has_def)
  have dp: "\<not> field_has (description j) ''python''"
    using python by (simp add: d field_has_def)
  have wp: "keyword_weight j ''python'' = 3"
    unfolding keyword_weight_def using tp np dp by simp
  have wd: "keyword_weight j ''docker'' = 1"
    unfolding keyword_weight_def using td np dd by simp
  have cp: "contains ''python'' (job_text j)"
    using tp by (intro field_hit_in_job_text) simp
  have cd: "contains ''docker'' (job_text j)"
    using dd by (intro field_hit_in_job_text) simp
  have "filter (\<lambda>k. contains k (job_text j)) [''python'', ''docker''] = [''python'', ''docker'']"
    using cp cd by simp
  then show ?thesis
    by (simp add: score_job_Some wp wd)
qed

text \<open>
  Claim C2, as the code has it. The score of a match is the sum, over its matched
  keywords, of 3 when the title is non-empty and contains the keyword, plus 2 for the
  job name, plus 1 for the description, all fields adding up. For keywords that are
  non-empty and lower case (\<open>keywords_of_lower\<close>: the keywords of a request always are
  lower case) this is the sum of the weights in the specification's wording. For the
  keywords \<open>python\<close>, \<open>docker\<close> and a posting titled \<open>Python Backend Engineer\<close> without
  job name, whose description contains \<open>docker\<close> and not \<open>python\<close>, the score is 4
  and \<open>matched_skills\<close> is \<open>[python, docker]\<close>.
\<close>

theorem relevance_score_weighted_sum:
  "(score_job keywords j = Some m \<longrightarrow>
      relevance_score m = (\<Sum>k\<leftarrow>matched_skills m. keyword_weight j k)
    \<and> ((\<forall>k\<in>set keywords. k \<noteq> [] \<and> lower k = k) \<longrightarrow>
         relevance_score m = (\<Sum>k\<leftarrow>matched_skills m. spec_weight j k)))
   \<and> (title j' = Some ''Python Backend Engineer'' \<and> description j' = Some d \<and> job_name j' = None
      \<and> contains ''docker'' (lower d) \<and> \<not> contains ''python'' (lower d) \<longrightarrow>
        (\<exists>m'. score_job [''python'', ''docker''] j' = Some m' \<and> relevance_score m' = 4
              \<and> matched_skills m' = [''python'', ''docker'']))"
proof -
  have a: "relevance_score m = (\<Sum>k\<leftarrow>matched_skills m. keyword_weight j k)"
    if "score_job keywords j = Some m"
    using that by (auto simp: score_job_Some)
  have b: "relevance_score m = (\<Sum>k\<leftarrow>matched_skills m. spec_weight j k)"
    if h: "score_job keywords j = Some m" and low: "\<forall>k\<in>set keywords. k \<noteq> [] \<and> lower k = k"
  proof -
    from h have "set (matched_skills m) \<subseteq> set keywords"
      by (auto simp: score_job_Some)
    with low have "\<forall>k\<in>set (matched_skills m). keyword_weight j k = spec_weight j k"
      by (auto intro: keyword_weight_spec)
    then have "map (keyword_weight j) (matched_skills m) = map (spec_weight j) (matched_skills m)"
      by simp
    with a [OF h] show ?thesis by simp
  qed
  have c: "\<exists>m'. score_job [''python'', ''docker''] j' = Some m' \<and> relevance_score m' = 4
              \<and> matched_skills m' = [''python'', ''docker'']"
    if "title j' = Some ''Python Backend Engineer''" "description j' = Some d" "job_name j' = None"
      "contains ''docker'' (lower d)" "\<not> contains ''python'' (lower d)"
    using scenario_score [OF that] by simp
  from a b c show ?thesis by blast
qed

theorem relevance_score_weighted_sum_witness:
  "score_job [''python'', ''docker''] (posting (Some ''Python Backend Engineer'') (Some ''We use Docker daily'') None)
     = Some \<lparr>job = job_summary_of (posting (Some ''Python Backend Engineer'') (Some ''We use Docker daily'') None),
             relevance_score = 4, matched_skills = [''python'', ''docker'']\<rparr>
   \<and> lower ''python'' = ''python'' \<and> lower ''docker'' = ''docker''
   \<and> contains ''docker'' (lower ''We use Docker daily'')
   \<and> \<not> contains ''python'' (lower ''We use Docker daily'')
   \<and> (4::int) = (\<Sum>k\<leftarrow>[''python'', ''docker''].
         spec_weight (posting (Some ''Python Backend Engineer'') (Some ''We use Docker daily'') None) k)"
proof -
  let ?j = "posting (Some ''Python Backend Engineer'') (Some ''We use Docker daily'') None"
  let ?m = "\<lparr>job = job_summary_of ?j, relevance_score = 4, matched_skills = [''python'', ''docker'']\<rparr>"
  have h: "score_job [''python'', ''docker''] ?j = Some ?m" by code_simp
  have low: "\<forall>k\<in>set [''python'', ''docker'']. k \<noteq> [] \<and> lower k = k" by code_simp
  have d1: "contains ''docker'' (lower ''We use Docker daily'')" by code_simp
  have d2: "\<not> contains ''python'' (lower ''We use Docker daily'')" by code_simp
  from relevance_score_weighted_sum [of "[''python'', ''docker'']" ?j ?m ?j "''We use Docker daily''"]
    h low d1 d2
  show ?thesis by simp
qed

text \<open>
  The claim as stated fails on the empty keyword, which Python finds in every string:
  an empty description is falsy and adds nothing, so the score is 3 where the sum of
  the stated weights is 4.
\<close>

theorem relevance_score_weighted_sum_counterexample:
  "job_recommendations [''''] [posting (Some ''Dev'') (Some '''') None] 10
     = [\<lparr>job = job_summary_of (posting (Some ''Dev'') (Some '''') None),
          relevance_score = 3, matched_skills = ['''']\<rparr>]
   \<and> (\<Sum>k\<leftarrow>['''']. spec_weight (posting (Some ''Dev'') (Some '''') None) k) = 4"
  by code_simp

section \<open>Ranking and truncation\<close>

lemma sort_by_relevance_sorted:
  "sorted_wrt (\<ge>) (map relevance_score (sort_by_relevance ms))"
proof -
  have "sorted (map (\<lambda>m. - relevance_score m) (sort_by_relevance ms))"
    unfolding sort_by_relevance_def by (rule sorted_sort_key)
  then show ?thesis
    by (simp add: sorted_map sorted_wrt_map)
qed

lemma sort_by_relevance_stable:
  "filter (\<lambda>m. relevance_score m = v) (sort_by_relevance ms) = filter (\<lambda>m. relevance_score m = v) ms"
proof -
  have "filter (\<lambda>m. - relevance_score m = - v) (sort_key (\<lambda>m. - relevance_score m) ms)
      = filter (\<lambda>m. - relevance_score m = - v) ms"
    by (rule sort_key_stable)
  then show ?thesis by (simp add: sort_by_relevance_def)
qed

lemma prefix_filter_take: "prefix (filter P (take n xs)) (filter P xs)"
proof -
  have "filter P xs = filter P (take n xs) @ filter P (drop n xs)"
    by (simp flip: filter_append)
  then show ?thesis by (rule prefixI)
qed

lemma length_map_filter:
  "length (List.map_filter f xs) = length (filter (\<lambda>x. f x \<noteq> None) xs)"
  by (induction xs) (auto simp: List.map_filter_def)

text \<open>
  Claim C3, as the code has it. For every list of scored matches and every limit that is
  not negative (the endpoint accepts 1 to 50): the returned list is sorted by
  non-increasing score; for every score, the returned matches of that score are an
  initial part of the scored matches of that score, in the order in which they were
  scored; the list has at most \<open>limit\<close> entries and at most as many as there are
  scored matches, which are the candidates with at least one matched keyword.
\<close>

theorem ranked_matches_sorted_stable_bounded:
  assumes "0 \<le> limit"
  shows "sorted_wrt (\<ge>) (map relevance_score (rank_matches job_matches limit))
       \<and> (\<forall>v. prefix (filter (\<lambda>m. relevance_score m = v) (rank_matches job_matches limit))
                     (filter (\<lambda>m. relevance_score m = v) job_matches))
       \<and> set (rank_matches job_matches limit) \<subseteq> set job_matches
       \<and> int (length (rank_matches job_matches limit)) \<le> limit
       \<and> length (rank_matches job_matches limit) \<le> length job_matches
       \<and> length (job_recommendations keywords jobs limit)
           \<le> length (filter (\<lambda>j. score_job keywords j \<noteq> None) jobs)"
proof -
  have r: "rank_matches ms limit = take (nat limit) (sort_by_relevance ms)" for ms
    using assms by (simp add: rank_matches_def slice_to_def)
  have 1: "sorted_wrt (\<ge>) (map relevance_score (rank_matches job_matches limit))"
    unfolding r take_map [symmetric] by (intro sorted_wrt_take sort_by_relevance_sorted)
  have 2: "prefix (filter (\<lambda>m. relevance_score m = v) (rank_matches job_matches limit))
                  (filter (\<lambda>m. relevance_score m = v) job_matches)" for v
    using prefix_filter_take [of "\<lambda>m. relevance_score m = v" "nat limit" "sort_by_relevance job_matches"]
    by (simp only: r sort_by_relevance_stable)
  have 3: "set (rank_matches job_matches limit) \<subseteq> set job_matches"
    unfolding rank_matches_def using set_slice_to [of "sort_by_relevance job_matches" limit]
    by (simp add: sort_by_relevance_def)
  have 4: "int (length (rank_matches job_matches limit)) \<le> limit"
    using assms by (simp add: r)
  have 5: "length (rank_matches ms limit) \<le> length ms" for ms
    by (simp add: r sort_by_relevance_def)
  have "length (job_recommendations keywords jobs limit) \<le> length (score_jobs keywords jobs [])"
    unfolding job_recommendations_def by (rule 5)
  then have 6: "length (job_recommendations keywords jobs limit)
           \<le> length (filter (\<lambda>j. score_job keywords j \<noteq> None) jobs)"
    by (simp add: score_jobs_map_filter length_map_filter)
  from 1 2 3 4 5 6 show ?thesis by blast
qed

theorem ranked_matches_sorted_stable_bounded_witness:
  "(0::int) \<le> 3
   \<and> map relevance_score
        (score_jobs [''a'', ''b'']
           [posting (Some ''a'') None None, posting (Some ''b'') (Some ''b'') None,
            posting (Some ''ab'') None None, posting (Some ''b'') (Some ''bb'') (Some ''x'')] [])
     = [3, 4, 6, 4]
   \<and> map relevance_score
        (rank_matches
           (score_jobs [''a'', ''b'']
              [posting (Some ''a'') None None, posting (Some ''b'') (Some ''b'') None,
               posting (Some ''ab'') None None, posting (Some ''b'') (Some ''bb'') (Some ''x'')] []) 3)
     = [6, 4, 4]
   \<and> sorted_wrt (\<ge>) (map relevance_score
        (rank_matches
           (score_jobs [''a'', ''b'']
              [posting (Some ''a'') None None, posting (Some ''b'') (Some ''b'') None,
               posting (Some ''ab'') None None, posting (Some ''b'') (Some ''bb'') (Some ''x'')] []) 3))"
proof -
  let ?ms = "score_jobs [''a'', ''b'']
           [posting (Some ''a'') None None, posting (Some ''b'') (Some ''b'') None,
            posting (Some ''ab'') None None, posting (Some ''b'') (Some ''bb'') (Some ''x'')] []"
  have h: "(0::int) \<le> 3" by simp
  have a: "map relevance_score ?ms = [3, 4, 6, 4]" by code_simp
  have b: "map relevance_score (rank_matches ?ms 3) = [6, 4, 4]" by code_simp
  from ranked_matches_sorted_stable_bounded [OF h, of ?ms] have
    "sorted_wrt (\<ge>) (map relevance_score (rank_matches ?ms 3))" by blast
  with h a b show ?thesis by blast
qed

text \<open>
  The bound by the number of candidates with a non-zero score fails: a candidate whose
  only matches are the empty keyword on empty fields, or a keyword lying across the
  space between two fields, is returned with score 0. In both runs below the only
  candidate has score 0 and the returned list has one entry.
\<close>

theorem ranked_matches_sorted_stable_bounded_counterexample:
  "length (job_recommendations [''''] [posting (Some '''') None None] 10) = 1
   \<and> snd (score_keywords (posting (Some '''') None None) [''''] ([], 0)) = 0
   \<and> length (job_recommendations [''backend developer'']
               [posting (Some ''Senior Backend'') (Some ''Developer wanted'') None] 10) = 1
   \<and> snd (score_keywords (posting (Some ''Senior Backend'') (Some ''Developer wanted'') None)
            [''backend developer''] ([], 0)) = 0"
  by code_simp

section \<open>All or nothing in bulk creation\<close>

lemma flush_rejected_row:
  assumes "r \<in> set rows" and "\<forall>w. ins w r = None"
  shows "\<not> fst (flush ins rows w)"
  using assms by (induction rows arbitrary: w) (auto split: option.splits)

lemma commit_failure:
  assumes "\<not> fst (flush ins (pending db) (working db))"
  shows "fst (commit ins db) = Inl StoreError \<and> table (snd (commit ins db)) = table db"
proof -
  obtain ok w where f: "flush ins (pending db) (working db) = (ok, w)"
    by (cases "flush ins (pending db) (working db)")
  with assms have "\<not> ok" by simp
  with f show ?thesis by (simp add: commit_def)
qed

lemma commit_success:
  assumes "fst (flush ins (pending db) (working db))"
  shows "fst (commit ins db) = Inr () \<and> table (snd (commit ins db)) = snd (flush ins (pending db) (working db))"
proof -
  obtain ok w where f: "flush ins (pending db) (working db) = (ok, w)"
    by (cases "flush ins (pending db) (working db)")
  with assms have "ok" by simp
  with f show ?thesis by (simp add: commit_def)
qed

text \<open>
  Claim C8. The handler adds all rows to the session and commits once; when the flush of
  the batch fails at any row, it rolls back and answers with status 500, and the store
  holds what it held before: the committed table is unchanged, the open transaction is
  reset to it and nothing is left pending. Otherwise the response is the success
  response and the table holds the result of all inserts, so no outcome inserts only
  a part of the batch. A row that the store rejects whatever it holds makes the flush
  fail.
\<close>

theorem bulk_create_all_or_nothing:
  "(\<not> fst (flush ins (pending db @ map new_row jobs) (working db)) \<longrightarrow>
      fst (create_jobs_bulk ins jobs db) = Inl (HTTPException 500)
    \<and> table (snd (create_jobs_bulk ins jobs db)) = table db
    \<and> working (snd (create_jobs_bulk ins jobs db)) = table db
    \<and> pending (snd (create_jobs_bulk ins jobs db)) = [])
   \<and> (fst (flush ins (pending db @ map new_row jobs) (working db)) \<longrightarrow>
      (\<exists>response. fst (create_jobs_bulk ins jobs db) = Inr response)
    \<and> table (snd (create_jobs_bulk ins jobs db))
        = snd (flush ins (pending db @ map new_row jobs) (working db)))
   \<and> ((\<exists>r\<in>set (map new_row jobs). \<forall>w. ins w r = None) \<longrightarrow>
      \<not> fst (flush ins (pending db @ map new_row jobs) (working db)))"
proof -
  let ?db1 = "add_all (map new_row jobs) db"
  have p: "pending ?db1 = pending db @ map new_row jobs" and w: "working ?db1 = working db"
    and t: "table ?db1 = table db"
    by (simp_all add: add_all_def)
  have a: "fst (create_jobs_bulk ins jobs db) = Inl (HTTPException 500)
    \<and> table (snd (create_jobs_bulk ins jobs db)) = table db
    \<and> working (snd (create_jobs_bulk ins jobs db)) = table db
    \<and> pending (snd (create_jobs_bulk ins jobs db)) = []"
    if "\<not> fst (flush ins (pending db @ map new_row jobs) (working db))"
  proof -
    from that have "\<not> fst (flush ins (pending ?db1) (working ?db1))" unfolding p w .
    then have c: "fst (commit ins ?db1) = Inl StoreError" "table (snd (commit ins ?db1)) = table db"
      using commit_failure [of ins ?db1] by (simp_all add: t)
    obtain res db2 where r: "commit ins ?db1 = (res, db2)" by (cases "commit ins ?db1")
    with c have "res = Inl StoreError" "table db2 = table db" by simp_all
    with r show ?thesis
      by (simp add: create_jobs_bulk_def Let_def rollback_def)
  qed
  have b: "(\<exists>response. fst (create_jobs_bulk ins jobs db) = Inr response)
    \<and> table (snd (create_jobs_bulk ins jobs db))
        = snd (flush ins (pending db @ map new_row jobs) (working db))"
    if "fst (flush ins (pending db @ map new_row jobs) (working db))"
  proof -
    from that have "fst (flush ins (pending ?db1) (working ?db1))" unfolding p w .
    then have c: "fst (commit ins ?db1) = Inr ()"
      "table (snd (commit ins ?db1)) = snd (flush ins (pending db @ map new_row jobs) (working db))"
      using commit_success [of ins ?db1] by (simp_all add: p w)
    obtain res db2 where r: "commit ins ?db1 = (res, db2)" by (cases "commit ins ?db1")
    with c have "res = Inr ()"
      "table db2 = snd (flush ins (pending db @ map new_row jobs) (working db))" by simp_all
    with r show ?thesis
      by (simp add: create_jobs_bulk_def Let_def)
  qed
  have c: "\<not> fst (flush ins (pending db @ map new_row jobs) (working db))"
    if "\<exists>r\<in>set (map new_row jobs). \<forall>w. ins w r = None"
  proof -
    from that obtain r where "r \<in> set (pending db @ map new_row jobs)" "\<forall>w. ins w r = None"
      by auto
    then show ?thesis by (rule flush_rejected_row)
  qed
  from a b c show ?thesis by blast
qed

theorem bulk_create_all_or_nothing_witness:
  "\<not> fst (flush varchar_insert
         (pending \<lparr>table = [posting (Some ''Old'') None None],
                  working = [posting (Some ''Old'') None None], pending = []\<rparr>
          @ map new_row [titled ''A'', titled ''B'', titled (replicate 256 (CHR ''x'')),
                         titled ''D'', titled ''E''])
         (working \<lparr>table = [posting (Some ''Old'') None None],
                  working = [posting (Some ''Old'') None None], pending = []\<rparr>))
   \<and> snd (flush varchar_insert
         (map new_row [titled ''A'', titled ''B'', titled (replicate 256 (CHR ''x'')),
                       titled ''D'', titled ''E''])
         [posting (Some ''Old'') None None])
       = [posting (Some ''Old'') None None, new_row (titled ''A''), new_row (titled ''B'')]
   \<and> fst (create_jobs_bulk varchar_insert
         [titled ''A'', titled ''B'', titled (replicate 256 (CHR ''x'')), titled ''D'', titled ''E'']
         \<lparr>table = [posting (Some ''Old'') None None],
          working = [posting (Some ''Old'') None None], pending = []\<rparr>)
       = Inl (HTTPException 500)
   \<and> table (snd (create_jobs_bulk varchar_insert
         [titled ''A'', titled ''B'', titled (replicate 256 (CHR ''x'')), titled ''D'', titled ''E'']
         \<lparr>table = [posting (Some ''Old'') None None],
          working = [posting (Some ''Old'') None None], pending = []\<rparr>))
       = [posting (Some ''Old'') None None]"
proof -
  let ?db = "\<lparr>table = [posting (Some ''Old'') None None],
              working = [posting (Some ''Old'') None None], pending = []\<rparr>"
  let ?jobs = "[titled ''A'', titled ''B'', titled (replicate 256 (CHR ''x'')), titled ''D'', titled ''E'']"
  have h: "\<not> fst (flush varchar_insert (pending ?db @ map new_row ?jobs) (working ?db))"
    by code_simp
  have p: "snd (flush varchar_insert (map new_row ?jobs) [posting (Some ''Old'') None None])
       = [posting (Some ''Old'') None None, new_row (titled ''A''), new_row (titled ''B'')]"
    by code_simp
  from bulk_create_all_or_nothing [of varchar_insert ?db ?jobs] h p show ?thesis
    by simp
qed

section \<open>The handler on a valid request\<close>

lemma upload_valid:
  assumes "1 \<le> limit" and "limit \<le> 50" and "suffix ''.pdf'' filename"
    and "extract_text_from_pdf pages = Inr cv_text" and "agent cv_text = Inr response_text"
  shows "upload_cv_and_get_jobs loads encode_error agent query filename pages limit =
     (case parse_ai_response loads response_text of
        Inl e \<Rightarrow> Inl (HTTPException 500)
      | Inr (cv_analysis, skills) \<Rightarrow>
          (case find_matching_jobs encode_error query cv_analysis skills limit of
             Inl e \<Rightarrow> Inl (HTTPException 500)
           | Inr response \<Rightarrow> Inr response))"
  using assms by (simp add: upload_cv_and_get_jobs_def)

lemma finite_no_skills_content: "finite_json (no_skills_content cv_analysis) = finite_json cv_analysis"
  by (simp add: no_skills_content_def)

lemma finite_json_of_match: "finite_json (json_of_match m)"
  by (simp add: json_of_match_def json_opt_int_def json_opt_str_def list_all_iff
      split: option.splits)

lemma finite_complete_content: "finite_json (complete_content review jm) = finite_json review"
  by (simp add: complete_content_def list_all_iff finite_json_of_match)

lemma finite_strings: "list_all finite_json (map JStr sk)"
  by (simp add: list_all_iff)

lemma finite_fallback_analysis: "finite_json (fallback_analysis sk)"
  by (simp add: fallback_analysis_def list_all_iff)

text \<open>What the handler answers once parsing has produced skills that are falsy.\<close>

lemma upload_no_skills:
  assumes "1 \<le> limit" and "limit \<le> 50" and "suffix ''.pdf'' filename"
    and "extract_text_from_pdf pages = Inr cv_text" and "agent cv_text = Inr response_text"
    and "parse_ai_response loads response_text = Inr (cv_analysis, skills)"
    and "\<not> truthy skills"
  shows "upload_cv_and_get_jobs loads encode_error agent query filename pages limit =
     (if finite_json cv_analysis
      then (case encode_error (no_skills_content cv_analysis) of
              Some e \<Rightarrow> Inl (HTTPException 500)
            | None \<Rightarrow> Inr (no_skills_content cv_analysis))
      else Inl (HTTPException 500))"
  using assms
  by (simp add: upload_cv_and_get_jobs_def find_matching_jobs_def json_response_def
      finite_no_skills_content split: option.splits)

text \<open>What the handler answers once parsing has raised.\<close>

lemma upload_parse_error:
  assumes "1 \<le> limit" and "limit \<le> 50" and "suffix ''.pdf'' filename"
    and "extract_text_from_pdf pages = Inr cv_text" and "agent cv_text = Inr response_text"
    and "parse_ai_response loads response_text = Inl e"
  shows "upload_cv_and_get_jobs loads encode_error agent query filename pages limit
     = Inl (HTTPException 500)"
  using assms by (simp add: upload_cv_and_get_jobs_def)

lemma sample_request:
  "(1::int) \<le> 10 \<and> (10::int) \<le> 50 \<and> suffix ''.pdf'' ''cv.pdf''
   \<and> extract_text_from_pdf (Some [''Python developer'']) = Inr ''Python developer''"
  by code_simp

section \<open>Code fences\<close>

lemma sublist_trans:
  assumes "sublist a b" and "sublist b c"
  shows "sublist a c"
proof -
  from assms obtain p1 s1 p2 s2 where "b = p1 @ a @ s1" and "c = p2 @ b @ s2"
    unfolding sublist_def by blast
  then have "c = (p2 @ p1) @ a @ (s1 @ s2)" by simp
  then show ?thesis unfolding sublist_def by blast
qed

lemma sublist_strip: "sublist (strip s) s"
proof -
  have "sublist (rev (dropWhile isspace (rev (lstrip s)))) (lstrip s)"
    by (simp add: sublist_rev_left)
  moreover have "sublist (lstrip s) s"
    unfolding lstrip_def by simp
  ultimately show ?thesis
    unfolding strip_def rstrip_def by (rule sublist_trans)
qed

lemma replace_fence_step:
  "replace_empty ''```'' (''```'' @ r) = replace_empty ''```'' r"
  by simp

lemma replace_fence_skip:
  assumes "\<not> prefix ''```'' (c # cs)"
  shows "replace_empty ''```'' (c # cs) = c # replace_empty ''```'' cs"
  using assms by (subst replace_empty.simps(2)) (simp only: simp_thms if_False)

lemma fence_not_prefix_replace: "\<not> prefix ''```'' (replace_empty ''```'' s)"
proof (induction s rule: length_induct)
  case (1 s)
  show ?case
  proof (cases "prefix ''```'' s")
    case True
    then obtain r where s: "s = ''```'' @ r" by (auto simp: prefix_def)
    then have "length r < length s" by simp
    with 1 have "\<not> prefix ''```'' (replace_empty ''```'' r)" by blast
    then show ?thesis unfolding s replace_fence_step .
  next
    case False
    show ?thesis
    proof (cases s)
      case Nil
      then show ?thesis by simp
    next
      case s1: (Cons c1 t1)
      show ?thesis
      proof (cases "c1 = CHR ''`''")
        case False
        then show ?thesis by (simp add: s1)
      next
        case c1: True
        show ?thesis
        proof (cases t1)
          case Nil
          then show ?thesis by (simp add: s1)
        next
          case s2: (Cons c2 t2)
          show ?thesis
          proof (cases "c2 = CHR ''`''")
            case False
            then show ?thesis by (simp add: s1 s2)
          next
            case c2: True
            show ?thesis
            proof (cases t2)
              case Nil
              then show ?thesis by (simp add: s1 s2)
            next
              case s3: (Cons c3 t3)
              with False s1 s2 c1 c2 have "c3 \<noteq> CHR ''`''" by auto
              then show ?thesis by (simp add: s1 s2 s3)
            qed
          qed
        qed
      qed
    qed
  qed
qed

lemma fence_not_in_replace: "\<not> sublist ''```'' (replace_empty ''```'' s)"
proof (induction s rule: length_induct)
  case (1 s)
  show ?case
  proof (cases "prefix ''```'' s")
    case True
    then obtain r where s: "s = ''```'' @ r" by (auto simp: prefix_def)
    then have "length r < length s" by simp
    with 1 have "\<not> sublist ''```'' (replace_empty ''```'' r)" by blast
    then show ?thesis unfolding s replace_fence_step .
  next
    case False
    show ?thesis
    proof (cases s)
      case Nil
      then show ?thesis by simp
    next
      case (Cons c cs)
      from False have "\<not> prefix ''```'' (c # cs)" unfolding Cons .
      then have eq: "replace_empty ''```'' s = c # replace_empty ''```'' cs"
        unfolding Cons by (rule replace_fence_skip)
      have "\<not> prefix ''```'' (c # replace_empty ''```'' cs)"
        using fence_not_prefix_replace [of s] unfolding eq .
      moreover have "\<not> sublist ''```'' (replace_empty ''```'' cs)"
        using 1 Cons by simp
      ultimately show ?thesis
        by (simp only: eq sublist_Cons_right) blast
    qed
  qed
qed

lemma prefix_imp_sublist: "prefix a b \<Longrightarrow> sublist a b"
  unfolding prefix_def sublist_def by (metis append_Nil)

lemma fence_in_json_fence: "sublist ''```'' ''```json''"
  by (rule prefix_imp_sublist) simp

lemma join_Cons: "xs \<noteq> [] \<Longrightarrow> join sep (x # xs) = x @ sep @ join sep xs"
  by (cases xs) simp_all

lemma replace_empty_step:
  assumes "old \<noteq> []"
  shows "replace_empty old (old @ r) = replace_empty old r"
proof -
  from assms obtain a t where old: "old = a # t" by (cases old) auto
  have "replace_empty old (a # (t @ r)) = replace_empty old (drop (length old) (a # (t @ r)))"
    by (subst replace_empty.simps(2)) (simp add: old)
  then show ?thesis by (simp add: old)
qed

lemma replace_empty_skip:
  assumes "\<not> prefix old (c # cs)"
  shows "replace_empty old (c # cs) = c # replace_empty old cs"
  using assms by (subst replace_empty.simps(2)) (simp only: simp_thms if_False)

text \<open>Deleting \<open>old\<close> cuts the string into pieces that were separated by \<open>old\<close> and
  joins the pieces, none of which contains \<open>old\<close>: nothing else is removed.\<close>

lemma replace_empty_pieces:
  assumes "old \<noteq> []"
  shows "\<exists>ps. ps \<noteq> [] \<and> s = join old ps \<and> replace_empty old s = concat ps
             \<and> (\<forall>p\<in>set ps. \<not> sublist old p)"
proof (induction s rule: length_induct)
  case (1 s)
  show ?case
  proof (cases s)
    case Nil
    have "[[]] \<noteq> [] \<and> [] = join old [[]] \<and> replace_empty old [] = concat [[]]
        \<and> (\<forall>p\<in>set [[]]. \<not> sublist old p)"
      using assms by simp
    then show ?thesis unfolding Nil by blast
  next
    case (Cons c cs)
    show ?thesis
    proof (cases "prefix old s")
      case True
      then obtain r where s: "s = old @ r" by (auto simp: prefix_def)
      with assms have "length r < length s" by simp
      with 1 obtain ps where ps: "ps \<noteq> []" "r = join old ps" "replace_empty old r = concat ps"
        "\<forall>p\<in>set ps. \<not> sublist old p" by blast
      have "s = join old ([] # ps)" using ps(1,2) s by (simp add: join_Cons)
      moreover have "replace_empty old s = concat ([] # ps)"
        using ps(3) assms by (simp add: s replace_empty_step)
      moreover have "\<forall>p\<in>set ([] # ps). \<not> sublist old p" using ps(4) assms by simp
      ultimately show ?thesis by blast
    next
      case False
      then have np: "\<not> prefix old (c # cs)" unfolding Cons .
      have "length cs < length s" by (simp add: Cons)
      with 1 obtain ps where ps: "ps \<noteq> []" "cs = join old ps" "replace_empty old cs = concat ps"
        "\<forall>p\<in>set ps. \<not> sublist old p" by blast
      from ps(1) obtain p rest where pr: "ps = p # rest" by (cases ps) auto
      have cs: "cs = p @ (if rest = [] then [] else old @ join old rest)"
        using ps(2) by (cases rest) (simp_all add: pr)
      have j: "s = join old ((c # p) # rest)"
        using ps(2) by (cases rest) (simp_all add: pr Cons)
      have r: "replace_empty old s = concat ((c # p) # rest)"
        using ps(3) np by (simp add: Cons replace_empty_skip pr)
      have "\<not> prefix old (c # p)"
      proof
        assume "prefix old (c # p)"
        then have "prefix old ((c # p) @ (if rest = [] then [] else old @ join old rest))"
          by (rule prefix_prefix)
        with cs have "prefix old (c # cs)" by simp
        with np show False by contradiction
      qed
      moreover have "\<not> sublist old p" using ps(4) pr by simp
      ultimately have "\<not> sublist old (c # p)" by (simp add: sublist_Cons_right)
      with ps(4) pr have "\<forall>q\<in>set ((c # p) # rest). \<not> sublist old q" by simp
      with j r show ?thesis by blast
    qed
  qed
qed

lemma replace_empty_payload:
  assumes "old \<noteq> []" and "hd old \<notin> set p"
  shows "replace_empty old (p @ t) = p @ replace_empty old t"
  using assms(2)
proof (induction p)
  case Nil
  show ?case by simp
next
  case (Cons c p)
  from Cons.prems assms(1) have "\<not> prefix old (c # (p @ t))"
    by (cases old) auto
  then have "replace_empty old (c # (p @ t)) = c # replace_empty old (p @ t)"
    by (rule replace_empty_skip)
  with Cons show ?case by simp
qed

lemma fenced_json_payload:
  assumes "CHR ''`'' \<notin> set p"
  shows "replace_empty ''```'' (replace_empty ''```json'' (''```json'' @ p @ ''```'')) = p"
proof -
  have a: "replace_empty ''```json'' ''```'' = ''```''" by simp
  have b: "replace_empty ''```'' ''```'' = []" by simp
  have "replace_empty ''```json'' (''```json'' @ p @ ''```'') = replace_empty ''```json'' (p @ ''```'')"
    by (rule replace_empty_step) simp
  also have "\<dots> = p @ replace_empty ''```json'' ''```''"
    using assms by (intro replace_empty_payload) simp_all
  finally have "replace_empty ''```json'' (''```json'' @ p @ ''```'') = p @ ''```''"
    by (simp only: a)
  moreover have "replace_empty ''```'' (p @ ''```'') = p @ replace_empty ''```'' ''```''"
    using assms by (intro replace_empty_payload) simp_all
  ultimately show ?thesis by (simp only: b append_Nil2)
qed

lemma fenced_payload:
  assumes "CHR ''`'' \<notin> set p"
  shows "replace_empty ''```'' (''```'' @ p @ ''```'') = p"
proof -
  have b: "replace_empty ''```'' ''```'' = []" by simp
  have "replace_empty ''```'' (''```'' @ p @ ''```'') = replace_empty ''```'' (p @ ''```'')"
    by (rule replace_empty_step) simp
  also have "\<dots> = p @ replace_empty ''```'' ''```''"
    using assms by (intro replace_empty_payload) simp_all
  finally show ?thesis by (simp only: b append_Nil2)
qed

lemma json_prefix_payload:
  assumes "prefix ''json'' (p @ ''```'')"
  shows "prefix ''json'' p"
proof -
  from assms consider "prefix ''json'' p" | us where "''json'' = p @ us" "us \<noteq> []" "prefix us ''```''"
    unfolding prefix_append by (cases "prefix ''json'' p") auto
  then show ?thesis
  proof cases
    case 1
    then show ?thesis .
  next
    case 2
    from 2(2,3) have "hd us = CHR ''`''" by (cases us) auto
    moreover from 2(2) have "hd us \<in> set us" by simp
    moreover from 2(1) have "set us \<subseteq> set ''json''" by (metis set_append Un_upper2)
    ultimately have "CHR ''`'' \<in> set ''json''" by auto
    then show ?thesis by simp
  qed
qed

text \<open>
  Claim C9, as the code has it. The fences are deleted only when the answer, stripped
  of surrounding whitespace, starts with one. If it starts with \<open>```json\<close>, the stripped
  answer is cut at the occurrences of \<open>```json\<close>, the joined pieces are cut at the
  occurrences of \<open>```\<close>, and the cleaned text is the joined pieces, stripped: nothing
  but markers is removed, and no piece contains the marker it was cut at. If it starts
  with \<open>```\<close> only, the same is done with \<open>```\<close> alone. In particular a stripped answer
  that is a payload without backquote between \<open>```json\<close> and \<open>```\<close>, or between \<open>```\<close>
  and \<open>```\<close>, is cleaned to the payload, stripped. The cleaned text of a fenced answer
  contains neither marker. Any other answer is parsed as stripped, with the fences it
  contains. In every case the cleaned text does not start with a fence.
\<close>

theorem clean_response_fences:
  "(prefix ''```json'' (strip r) \<longrightarrow>
      (\<exists>ps qs. strip r = join ''```json'' ps \<and> (\<forall>p\<in>set ps. \<not> contains ''```json'' p)
             \<and> concat ps = join ''```'' qs \<and> (\<forall>q\<in>set qs. \<not> contains ''```'' q)
             \<and> clean_response r = strip (concat qs)))
   \<and> (prefix ''```'' (strip r) \<and> \<not> prefix ''```json'' (strip r) \<longrightarrow>
      (\<exists>qs. strip r = join ''```'' qs \<and> (\<forall>q\<in>set qs. \<not> contains ''```'' q)
           \<and> clean_response r = strip (concat qs)))
   \<and> (strip r = ''```json'' @ p @ ''```'' \<and> CHR ''`'' \<notin> set p \<longrightarrow> clean_response r = strip p)
   \<and> (strip r = ''```'' @ p @ ''```'' \<and> CHR ''`'' \<notin> set p \<and> \<not> prefix ''json'' p \<longrightarrow>
      clean_response r = strip p)
   \<and> (prefix ''```'' (strip r) \<longrightarrow>
       \<not> contains ''```'' (clean_response r) \<and> \<not> contains ''```json'' (clean_response r))
   \<and> (\<not> prefix ''```'' (strip r) \<longrightarrow> clean_response r = strip r)
   \<and> \<not> prefix ''```'' (clean_response r)"
proof -
  have json: "prefix ''```'' c" if "prefix ''```json'' c" for c
    using that by (auto simp: prefix_def)
  have cj: "clean_response r = strip (replace_empty ''```'' (replace_empty ''```json'' (strip r)))"
    if "prefix ''```json'' (strip r)"
    using that by (simp add: clean_response_def Let_def)
  have cf: "clean_response r = strip (replace_empty ''```'' (strip r))"
    if "prefix ''```'' (strip r)" "\<not> prefix ''```json'' (strip r)"
    using that by (simp add: clean_response_def Let_def)
  have 1: "\<exists>ps qs. strip r = join ''```json'' ps \<and> (\<forall>p\<in>set ps. \<not> contains ''```json'' p)
             \<and> concat ps = join ''```'' qs \<and> (\<forall>q\<in>set qs. \<not> contains ''```'' q)
             \<and> clean_response r = strip (concat qs)"
    if h: "prefix ''```json'' (strip r)"
  proof -
    obtain ps where ps: "strip r = join ''```json'' ps"
      "replace_empty ''```json'' (strip r) = concat ps" "\<forall>p\<in>set ps. \<not> sublist ''```json'' p"
      using replace_empty_pieces [of "''```json''" "strip r"] by auto
    obtain qs where qs: "concat ps = join ''```'' qs"
      "replace_empty ''```'' (concat ps) = concat qs" "\<forall>q\<in>set qs. \<not> sublist ''```'' q"
      using replace_empty_pieces [of "''```''" "concat ps"] by auto
    from cj [OF h] ps(2) qs(2) have "clean_response r = strip (concat qs)" by simp
    with ps(1,3) qs(1,3) show ?thesis
      unfolding contains_sublist by blast
  qed
  have 2: "\<exists>qs. strip r = join ''```'' qs \<and> (\<forall>q\<in>set qs. \<not> contains ''```'' q)
           \<and> clean_response r = strip (concat qs)"
    if h: "prefix ''```'' (strip r)" "\<not> prefix ''```json'' (strip r)"
  proof -
    obtain qs where qs: "strip r = join ''```'' qs"
      "replace_empty ''```'' (strip r) = concat qs" "\<forall>q\<in>set qs. \<not> sublist ''```'' q"
      using replace_empty_pieces [of "''```''" "strip r"] by auto
    from cf [OF h] qs(2) have "clean_response r = strip (concat qs)" by simp
    with qs(1,3) show ?thesis
      unfolding contains_sublist by blast
  qed
  have 3: "clean_response r = strip p"
    if h: "strip r = ''```json'' @ p @ ''```''" "CHR ''`'' \<notin> set p"
  proof -
    from h(1) have "prefix ''```json'' (strip r)" by simp
    from cj [OF this] fenced_json_payload [OF h(2)] show ?thesis
      by (simp only: h(1))
  qed
  have 4: "clean_response r = strip p"
    if h: "strip r = ''```'' @ p @ ''```''" "CHR ''`'' \<notin> set p" "\<not> prefix ''json'' p"
  proof -
    from h(1) have a: "prefix ''```'' (strip r)" by simp
    have b: "\<not> prefix ''```json'' (strip r)"
    proof
      assume "prefix ''```json'' (strip r)"
      then have "prefix ''json'' (p @ ''```'')" by (simp add: h(1))
      then have "prefix ''json'' p" by (rule json_prefix_payload)
      with h(3) show False by contradiction
    qed
    from cf [OF a b] fenced_payload [OF h(2)] show ?thesis
      by (simp only: h(1))
  qed
  have stripped: "\<not> sublist ''```'' (strip (replace_empty ''```'' t))" for t
    using fence_not_in_replace sublist_strip sublist_trans by blast
  have a: "\<not> sublist ''```'' (clean_response r)" if "prefix ''```'' (strip r)"
    using that stripped by (simp add: clean_response_def Let_def)
  have b: "clean_response r = strip r" if "\<not> prefix ''```'' (strip r)"
    using that json by (auto simp: clean_response_def Let_def)
  have c: "\<not> prefix ''```'' (clean_response r)"
  proof (cases "prefix ''```'' (strip r)")
    case True
    then show ?thesis using a prefix_imp_sublist by blast
  next
    case False
    then show ?thesis using b by simp
  qed
  have d: "\<not> sublist ''```json'' (clean_response r)" if "prefix ''```'' (strip r)"
    using a [OF that] fence_in_json_fence sublist_trans by blast
  from a d have 5: "prefix ''```'' (strip r) \<longrightarrow>
       \<not> contains ''```'' (clean_response r) \<and> \<not> contains ''```json'' (clean_response r)"
    by (simp only: contains_sublist) blast
  from 1 2 3 4 5 b c show ?thesis by blast
qed

theorem clean_response_fences_witness:
  "strip ''  ```json {} ```  '' = ''```json'' @ '' {} '' @ ''```''
   \<and> CHR ''`'' \<notin> set '' {} ''
   \<and> prefix ''```'' (strip ''  ```json {} ```  '')
   \<and> clean_response ''  ```json {} ```  '' = ''{}''
   \<and> \<not> contains ''```'' (clean_response ''  ```json {} ```  '')
   \<and> \<not> prefix ''```'' (strip '' {} ``` '')
   \<and> clean_response '' {} ``` '' = ''{} ```''"
proof -
  have h0: "strip ''  ```json {} ```  '' = ''```json'' @ '' {} '' @ ''```''" by code_simp
  have h1: "prefix ''```'' (strip ''  ```json {} ```  '')" by code_simp
  have h2: "\<not> prefix ''```'' (strip '' {} ``` '')" by code_simp
  have h3: "CHR ''`'' \<notin> set '' {} ''" by simp
  have v1: "strip '' {} '' = ''{}''" by code_simp
  have v2: "strip '' {} ``` '' = ''{} ```''" by code_simp
  from clean_response_fences [of "''  ```json {} ```  ''" "'' {} ''"]
    clean_response_fences [of "'' {} ``` ''" "[]"]
    h0 h1 h2 h3 v1 v2
  show ?thesis by simp
qed

text \<open>
  The claim as stated fails for an answer that wraps the JSON in fences after some
  words of introduction: nothing is deleted and the parsed text still holds both
  markers.
\<close>

theorem clean_response_fences_counterexample:
  "clean_response ''Here is the analysis: ```json {} ```'' = ''Here is the analysis: ```json {} ```''
   \<and> contains ''```json'' (clean_response ''Here is the analysis: ```json {} ```'')
   \<and> suffix ''```'' (clean_response ''Here is the analysis: ```json {} ```'')"
  by code_simp

section \<open>The fallback for answers that are not JSON\<close>

lemma replace_empty_char: "replace_empty [c] s = filter (\<lambda>x. x \<noteq> c) s"
  by (induction s) auto

lemma clean_line_filter:
  "clean_line l = strip (filter (\<lambda>c. c \<noteq> CHR 0x22 \<and> c \<noteq> CHR '','') (strip l))"
  by (simp add: clean_line_def replace_empty_char conj_commute)

lemma fallback_loop_filter:
  "fallback_loop ls acc = acc @ filter keep_line (map clean_line ls)"
  by (induction ls arbitrary: acc) (simp_all add: Let_def)

lemma split_acc_nonempty: "split_acc sep cur s \<noteq> []"
  by (induction s arbitrary: cur) auto

lemma join_split_acc: "join [sep] (split_acc sep cur s) = cur @ s"
  by (induction s arbitrary: cur) (simp_all add: join_Cons split_acc_nonempty)

text \<open>Joining the pieces of \<open>split\<close> with the separator gives the string back, and no
  piece contains the separator.\<close>

lemma join_split: "join [sep] (split s sep) = s"
  by (simp add: split_def join_split_acc)

lemma split_acc_pieces:
  "sep \<notin> set cur \<Longrightarrow> l \<in> set (split_acc sep cur s) \<Longrightarrow> sep \<notin> set l"
proof (induction s arbitrary: cur)
  case Nil
  then show ?case by simp
next
  case (Cons c s)
  show ?case
  proof (cases "c = sep")
    case True
    with Cons.prems have "l = cur \<or> l \<in> set (split_acc sep [] s)" by simp
    then show ?thesis using Cons.prems(1) Cons.IH [of "[]"] by auto
  next
    case False
    with Cons.prems have "l \<in> set (split_acc sep (cur @ [c]) s)" by simp
    moreover from False Cons.prems(1) have "sep \<notin> set (cur @ [c])" by auto
    ultimately show ?thesis using Cons.IH by blast
  qed
qed

lemma split_pieces: "\<forall>l\<in>set (split s sep). sep \<notin> set l"
  unfolding split_def using split_acc_pieces [of sep "[]"] by auto

lemma lower_strip_all_strings:
  "lower_strip_all (map JStr sk) = Inr (map (\<lambda>s. strip (lower s)) sk)"
  by (induction sk) simp_all

lemma cv_review_of_fallback:
  "cv_review_of (fallback_analysis sk) skills =
     Inr (JObj [(''summary'', JStr ''CV analysis completed''),
                (''strengths'', JArr [JStr ''Experience in multiple technologies'']),
                (''improvements'', JArr [JStr ''Consider adding more specific achievements'']),
                (''experience_level'', JStr ''Not specified''),
                (''extracted_skills'', skills)])"
  by (simp add: cv_review_of_def fallback_analysis_def)

lemma parse_fallback:
  assumes "loads (clean_response response_text) = Inl JSONDecodeError"
  shows "parse_ai_response loads response_text
        = Inr (fallback_analysis (fallback_skills response_text),
               JArr (map JStr (fallback_skills response_text)))"
  using assms by (simp add: parse_ai_response_def Let_def)

lemma parse_other_exception:
  assumes "loads (clean_response response_text) = Inl e" and "e \<noteq> JSONDecodeError"
  shows "parse_ai_response loads response_text = Inl e"
  using assms by (simp add: parse_ai_response_def)

lemma find_matching_jobs_fallback:
  assumes "sk \<noteq> []"
  shows "find_matching_jobs encode_error query (fallback_analysis sk) (JArr (map JStr sk)) limit =
     (case query (map (\<lambda>s. strip (lower s)) sk) (limit * 3) of
        Inl e \<Rightarrow> Inl e
      | Inr jobs \<Rightarrow>
          json_response encode_error
            (complete_content
               (JObj [(''summary'', JStr ''CV analysis completed''),
                      (''strengths'', JArr [JStr ''Experience in multiple technologies'']),
                      (''improvements'', JArr [JStr ''Consider adding more specific achievements'']),
                      (''experience_level'', JStr ''Not specified''),
                      (''extracted_skills'', JArr (map JStr sk))])
               (job_recommendations (map (\<lambda>s. strip (lower s)) sk) jobs limit)))"
  using assms
  by (simp add: find_matching_jobs_def lower_strip_all_strings cv_review_of_fallback Let_def
      split: sum.splits)

lemma strip_replicate:
  assumes "\<not> isspace c"
  shows "strip (replicate n c) = replicate n c"
  using assms by (cases n) (simp_all add: strip_def lstrip_def rstrip_def replicate_append_same)

lemma not_prefix_replicate: "a \<noteq> c \<Longrightarrow> \<not> prefix (a # as) (replicate n c)"
  by (cases n) auto

lemma clean_response_deep: "clean_response deep_answer = deep_answer"
proof -
  have "\<not> isspace (CHR ''['')" by code_simp
  then have s: "strip deep_answer = deep_answer"
    unfolding deep_answer_def by (rule strip_replicate)
  have "\<not> prefix ''```'' deep_answer" and "\<not> prefix ''```json'' deep_answer"
    unfolding deep_answer_def by (simp_all add: not_prefix_replicate)
  with s show ?thesis by (simp add: clean_response_def)
qed

text \<open>
  Claim C5, as the code has it. When \<open>json.loads\<close> raises \<open>JSONDecodeError\<close> on the
  cleaned answer, parsing returns the fixed generic analysis together with the fallback
  skills. The skills are, in the order of the lines of the answer, the cleaned lines
  that are non-empty, longer than 2 characters and do not start with \<open>{\<close> or \<open>}\<close>; a
  line is cleaned by stripping surrounding whitespace, removing every double quote and
  comma, and stripping again. Summary, strengths and improvements are the fixed generic
  values. The decode error does not reach the caller: a valid request is answered with
  the no-skills response when no line qualifies, and otherwise with the complete
  response that carries the generic values and the fallback skills; only an exception
  of the store or of the encoder turns the answer into status 500. When \<open>json.loads\<close>
  raises any other exception, no fallback runs and the request is answered with
  status 500.
\<close>

theorem fallback_skills_filter:
  "(loads (clean_response response_text) = Inl JSONDecodeError \<longrightarrow>
      parse_ai_response loads response_text
        = Inr (fallback_analysis (fallback_skills response_text),
               JArr (map JStr (fallback_skills response_text))))
   \<and> fallback_skills response_text
       = filter (\<lambda>l. l \<noteq> [] \<and> 2 < length l \<and> \<not> prefix ''{'' l \<and> \<not> prefix ''}'' l)
           (map clean_line (split response_text (CHR 0x0A)))
   \<and> clean_line line = strip (filter (\<lambda>c. c \<noteq> CHR 0x22 \<and> c \<noteq> CHR '','') (strip line))
   \<and> dict_get (fallback_analysis skills) ''summary'' JNull = Inr (JStr ''CV analysis completed'')
   \<and> dict_get (fallback_analysis skills) ''strengths'' JNull
       = Inr (JArr [JStr ''Experience in multiple technologies''])
   \<and> dict_get (fallback_analysis skills) ''improvements'' JNull
       = Inr (JArr [JStr ''Consider adding more specific achievements''])
   \<and> dict_get (fallback_analysis skills) ''skills'' JNull = Inr (JArr (map JStr skills))
   \<and> (1 \<le> limit \<and> limit \<le> 50 \<and> suffix ''.pdf'' filename
        \<and> extract_text_from_pdf pages = Inr cv_text \<and> agent cv_text = Inr response_text
        \<and> loads (clean_response response_text) = Inl JSONDecodeError \<longrightarrow>
      upload_cv_and_get_jobs loads encode_error agent query filename pages limit =
        (if fallback_skills response_text = []
         then (case encode_error (no_skills_content (fallback_analysis [])) of
                 Some e \<Rightarrow> Inl (HTTPException 500)
               | None \<Rightarrow> Inr (no_skills_content (fallback_analysis [])))
         else (case query (map (\<lambda>s. strip (lower s)) (fallback_skills response_text)) (limit * 3) of
                 Inl e \<Rightarrow> Inl (HTTPException 500)
               | Inr jobs \<Rightarrow>
                   (case encode_error
                      (complete_content
                         (JObj [(''summary'', JStr ''CV analysis completed''),
                                (''strengths'', JArr [JStr ''Experience in multiple technologies'']),
                                (''improvements'',
                                 JArr [JStr ''Consider adding more specific achievements'']),
                                (''experience_level'', JStr ''Not specified''),
                                (''extracted_skills'', JArr (map JStr (fallback_skills response_text)))])
                         (job_recommendations
                            (map (\<lambda>s. strip (lower s)) (fallback_skills response_text)) jobs limit)) of
                      Some e \<Rightarrow> Inl (HTTPException 500)
                    | None \<Rightarrow>
                        Inr (complete_content
                         (JObj [(''summary'', JStr ''CV analysis completed''),
                                (''strengths'', JArr [JStr ''Experience in multiple technologies'']),
                                (''improvements'',
                                 JArr [JStr ''Consider adding more specific achievements'']),
                                (''experience_level'', JStr ''Not specified''),
                                (''extracted_skills'', JArr (map JStr (fallback_skills response_text)))])
                         (job_recommendations
                            (map (\<lambda>s. strip (lower s)) (fallback_skills response_text)) jobs limit))))))
   \<and> (1 \<le> limit \<and> limit \<le> 50 \<and> suffix ''.pdf'' filename
        \<and> extract_text_from_pdf pages = Inr cv_text \<and> agent cv_text = Inr response_text
        \<and> loads (clean_response response_text) = Inl e \<and> e \<noteq> JSONDecodeError \<longrightarrow>
      upload_cv_and_get_jobs loads encode_error agent query filename pages limit
        = Inl (HTTPException 500))"
proof -
  let ?sk = "fallback_skills response_text"
  let ?review = "JObj [(''summary'', JStr ''CV analysis completed''),
                                (''strengths'', JArr [JStr ''Experience in multiple technologies'']),
                                (''improvements'',
                                 JArr [JStr ''Consider adding more specific achievements'']),
                                (''experience_level'', JStr ''Not specified''),
                                (''extracted_skills'', JArr (map JStr ?sk))]"
  have a: "parse_ai_response loads response_text = Inr (fallback_analysis ?sk, JArr (map JStr ?sk))"
    if "loads (clean_response response_text) = Inl JSONDecodeError"
    using that parse_fallback [where loads = loads and response_text = response_text] by simp
  have "keep_line = (\<lambda>l. l \<noteq> [] \<and> 2 < length l \<and> \<not> prefix ''{'' l \<and> \<not> prefix ''}'' l)"
    by (rule ext) (simp only: keep_line_def)
  then have b: "?sk
       = filter (\<lambda>l. l \<noteq> [] \<and> 2 < length l \<and> \<not> prefix ''{'' l \<and> \<not> prefix ''}'' l)
           (map clean_line (split response_text (CHR 0x0A)))"
    by (simp add: fallback_skills_def fallback_loop_filter)
  have c: "dict_get (fallback_analysis skills) ''summary'' JNull = Inr (JStr ''CV analysis completed'')"
    "dict_get (fallback_analysis skills) ''strengths'' JNull
       = Inr (JArr [JStr ''Experience in multiple technologies''])"
    "dict_get (fallback_analysis skills) ''improvements'' JNull
       = Inr (JArr [JStr ''Consider adding more specific achievements''])"
    "dict_get (fallback_analysis skills) ''skills'' JNull = Inr (JArr (map JStr skills))"
    by (simp_all add: fallback_analysis_def)
  have d: "upload_cv_and_get_jobs loads encode_error agent query filename pages limit =
        (if ?sk = []
         then (case encode_error (no_skills_content (fallback_analysis [])) of
                 Some e \<Rightarrow> Inl (HTTPException 500)
               | None \<Rightarrow> Inr (no_skills_content (fallback_analysis [])))
         else (case query (map (\<lambda>s. strip (lower s)) ?sk) (limit * 3) of
                 Inl e \<Rightarrow> Inl (HTTPException 500)
               | Inr jobs \<Rightarrow>
                   (case encode_error (complete_content ?review
                         (job_recommendations (map (\<lambda>s. strip (lower s)) ?sk) jobs limit)) of
                      Some e \<Rightarrow> Inl (HTTPException 500)
                    | None \<Rightarrow> Inr (complete_content ?review
                         (job_recommendations (map (\<lambda>s. strip (lower s)) ?sk) jobs limit)))))"
    if v: "1 \<le> limit" "limit \<le> 50" "suffix ''.pdf'' filename"
      "extract_text_from_pdf pages = Inr cv_text" "agent cv_text = Inr response_text"
      and l: "loads (clean_response response_text) = Inl JSONDecodeError"
  proof (cases "?sk = []")
    case True
    from a l True have p: "parse_ai_response loads response_text = Inr (fallback_analysis [], JArr [])"
      by simp
    have "\<not> truthy (JArr [])" by simp
    from upload_no_skills [where agent = agent and cv_text = cv_text and loads = loads
        and encode_error = encode_error and query = query, OF v p this] True
    show ?thesis
      by (simp add: finite_fallback_analysis)
  next
    case False
    from False show ?thesis
      using a l
      by (simp add: upload_valid [where agent = agent and cv_text = cv_text, OF v]
          find_matching_jobs_fallback json_response_def
          finite_complete_content finite_strings split: sum.splits option.splits)
  qed
  have e: "upload_cv_and_get_jobs loads encode_error agent query filename pages limit
        = Inl (HTTPException 500)"
    if v: "1 \<le> limit" "limit \<le> 50" "suffix ''.pdf'' filename"
      "extract_text_from_pdf pages = Inr cv_text" "agent cv_text = Inr response_text"
      and l: "loads (clean_response response_text) = Inl e" "e \<noteq> JSONDecodeError"
    using upload_parse_error [where agent = agent and cv_text = cv_text, OF v
        parse_other_exception [where loads = loads and response_text = response_text, OF l]] .
  from a b c d e clean_line_filter show ?thesis by blast
qed

theorem fallback_skills_filter_witness:
  "(1::int) \<le> 10 \<and> (10::int) \<le> 50 \<and> suffix ''.pdf'' ''cv.pdf''
   \<and> extract_text_from_pdf (Some [''Python developer'']) = Inr ''Python developer''
   \<and> answering plain_answer ''Python developer'' = Inr plain_answer
   \<and> sample_loads (clean_response plain_answer) = Inl JSONDecodeError
   \<and> map clean_line (split plain_answer (CHR 0x0A)) = [''Python'', ''C#'', ''{'', ''ab'', ''Docker'']
   \<and> fallback_skills plain_answer = [''Python'', ''Docker'']
   \<and> parse_ai_response sample_loads plain_answer
       = Inr (fallback_analysis [''Python'', ''Docker''], JArr [JStr ''Python'', JStr ''Docker''])
   \<and> upload_cv_and_get_jobs sample_loads no_encode_error (answering plain_answer) python_store
        ''cv.pdf'' (Some [''Python developer'']) 10
       = Inr (complete_content
                (JObj [(''summary'', JStr ''CV analysis completed''),
                       (''strengths'', JArr [JStr ''Experience in multiple technologies'']),
                       (''improvements'', JArr [JStr ''Consider adding more specific achievements'']),
                       (''experience_level'', JStr ''Not specified''),
                       (''extracted_skills'', JArr [JStr ''Python'', JStr ''Docker''])])
                [\<lparr>job = job_summary_of (posting (Some ''Python Developer'') None None),
                  relevance_score = 3, matched_skills = [''python'']\<rparr>])"
proof -
  have a: "answering plain_answer ''Python developer'' = Inr plain_answer"
    by (simp add: answering_def)
  have h: "sample_loads (clean_response plain_answer) = Inl JSONDecodeError" by code_simp
  have l: "map clean_line (split plain_answer (CHR 0x0A)) = [''Python'', ''C#'', ''{'', ''ab'', ''Docker'']"
    by code_simp
  have v: "fallback_skills plain_answer = [''Python'', ''Docker'']" by code_simp
  have k: "map (\<lambda>s. strip (lower s)) [''Python'', ''Docker''] = [''python'', ''docker'']" by code_simp
  have q: "python_store [''python'', ''docker''] 30 = Inr [posting (Some ''Python Developer'') None None]"
    by (simp add: python_store_def)
  have r: "job_recommendations [''python'', ''docker''] [posting (Some ''Python Developer'') None None] 10
      = [\<lparr>job = job_summary_of (posting (Some ''Python Developer'') None None),
                  relevance_score = 3, matched_skills = [''python'']\<rparr>]"
    by code_simp
  note t = fallback_skills_filter [of sample_loads plain_answer _ _ 10 "''cv.pdf''"
      "Some [''Python developer'']" "''Python developer''" "answering plain_answer"
      no_encode_error python_store, unfolded v k]
  from t sample_request a h l v
  show ?thesis by (simp add: q r no_encode_error_def)
qed

text \<open>
  The claim as stated fails for an answer on which \<open>json.loads\<close> raises an exception
  that is not \<open>JSONDecodeError\<close>: 100000 opening brackets raise \<open>RecursionError\<close>, no
  fallback runs and the request is answered with status 500.
\<close>

theorem fallback_skills_filter_counterexample:
  "clean_response deep_answer = deep_answer
   \<and> deep_loads (clean_response deep_answer) = Inl RecursionError
   \<and> parse_ai_response deep_loads deep_answer = Inl RecursionError
   \<and> upload_cv_and_get_jobs deep_loads no_encode_error (answering deep_answer) empty_store
        ''cv.pdf'' (Some [''Python developer'']) 10
       = Inl (HTTPException 500)"
proof -
  have l: "deep_loads (clean_response deep_answer) = Inl RecursionError"
    by (simp add: clean_response_deep deep_loads_def)
  have p: "parse_ai_response deep_loads deep_answer = Inl RecursionError"
    using parse_other_exception [where loads = deep_loads and response_text = deep_answer
        and e = RecursionError] l by simp
  have a: "answering deep_answer ''Python developer'' = Inr deep_answer"
    by (simp add: answering_def)
  from sample_request have v: "(1::int) \<le> 10" "(10::int) \<le> 50" "suffix ''.pdf'' ''cv.pdf''"
    "extract_text_from_pdf (Some [''Python developer'']) = Inr ''Python developer''"
    by blast+
  from upload_parse_error [where agent = "answering deep_answer"
      and cv_text = "''Python developer''", OF v a p] clean_response_deep l p
  show ?thesis by blast
qed

section \<open>Answers that are JSON\<close>

lemma dict_get_non_object:
  "\<forall>items. w \<noteq> JObj items \<Longrightarrow> dict_get w key dflt = Inl AttributeError"
  by (cases w) simp_all

lemma parse_object:
  assumes "loads (clean_response response_text) = Inr (JObj kvs)"
  shows "parse_ai_response loads response_text
     = Inr (JObj kvs, case map_of kvs ''skills'' of None \<Rightarrow> JArr [] | Some v \<Rightarrow> v)"
  using assms by (simp add: parse_ai_response_def)

lemma parse_non_object:
  assumes "loads (clean_response response_text) = Inr w" and "\<forall>items. w \<noteq> JObj items"
  shows "parse_ai_response loads response_text = Inl AttributeError"
  using assms by (simp add: parse_ai_response_def dict_get_non_object)

text \<open>
  Claim C7, as the code has it. When the cleaned answer parses as a JSON object, the
  skills are the entry \<open>skills\<close> of the object, or the empty list when there is none,
  and no error is raised by reading them; with no entry, a valid request is answered
  with the no-skills response (with status 500 when the object holds a number that is
  not finite or cannot be encoded). When the answer parses as any other JSON value,
  reading the entry raises \<open>AttributeError\<close> and every valid request is answered with
  status 500.
\<close>

theorem parsed_skills_default:
  "(loads (clean_response response_text) = Inr (JObj kvs) \<and> map_of kvs ''skills'' = None \<longrightarrow>
      parse_ai_response loads response_text = Inr (JObj kvs, JArr []))
   \<and> (loads (clean_response response_text) = Inr (JObj kvs) \<and> map_of kvs ''skills'' = Some v \<longrightarrow>
      parse_ai_response loads response_text = Inr (JObj kvs, v))
   \<and> (loads (clean_response response_text) = Inr w \<and> (\<forall>items. w \<noteq> JObj items) \<longrightarrow>
      parse_ai_response loads response_text = Inl AttributeError)
   \<and> (1 \<le> limit \<and> limit \<le> 50 \<and> suffix ''.pdf'' filename
        \<and> extract_text_from_pdf pages = Inr cv_text \<and> agent cv_text = Inr response_text
        \<and> loads (clean_response response_text) = Inr (JObj kvs) \<and> map_of kvs ''skills'' = None \<longrightarrow>
      upload_cv_and_get_jobs loads encode_error agent query filename pages limit =
        (if finite_json (JObj kvs)
         then (case encode_error (no_skills_content (JObj kvs)) of
                 Some e \<Rightarrow> Inl (HTTPException 500)
               | None \<Rightarrow> Inr (no_skills_content (JObj kvs)))
         else Inl (HTTPException 500)))
   \<and> (1 \<le> limit \<and> limit \<le> 50 \<and> suffix ''.pdf'' filename
        \<and> extract_text_from_pdf pages = Inr cv_text \<and> agent cv_text = Inr response_text
        \<and> loads (clean_response response_text) = Inr w \<and> (\<forall>items. w \<noteq> JObj items) \<longrightarrow>
      upload_cv_and_get_jobs loads encode_error agent query filename pages limit
        = Inl (HTTPException 500))"
proof -
  have a: "parse_ai_response loads response_text = Inr (JObj kvs, JArr [])"
    if "loads (clean_response response_text) = Inr (JObj kvs)" "map_of kvs ''skills'' = None"
    using that parse_object [where loads = loads and response_text = response_text] by simp
  have b: "parse_ai_response loads response_text = Inr (JObj kvs, v)"
    if "loads (clean_response response_text) = Inr (JObj kvs)" "map_of kvs ''skills'' = Some v"
    using that parse_object [where loads = loads and response_text = response_text] by simp
  have c: "parse_ai_response loads response_text = Inl AttributeError"
    if "loads (clean_response response_text) = Inr w" "\<forall>items. w \<noteq> JObj items"
    using that parse_non_object [where loads = loads and response_text = response_text] by simp
  have d: "upload_cv_and_get_jobs loads encode_error agent query filename pages limit =
        (if finite_json (JObj kvs)
         then (case encode_error (no_skills_content (JObj kvs)) of
                 Some e \<Rightarrow> Inl (HTTPException 500)
               | None \<Rightarrow> Inr (no_skills_content (JObj kvs)))
         else Inl (HTTPException 500))"
    if v: "1 \<le> limit" "limit \<le> 50" "suffix ''.pdf'' filename"
      "extract_text_from_pdf pages = Inr cv_text" "agent cv_text = Inr response_text"
      and l: "loads (clean_response response_text) = Inr (JObj kvs)" "map_of kvs ''skills'' = None"
  proof -
    have "\<not> truthy (JArr [])" by simp
    from upload_no_skills [where agent = agent and cv_text = cv_text and loads = loads
        and encode_error = encode_error and query = query, OF v a [OF l] this]
    show ?thesis .
  qed
  have e: "upload_cv_and_get_jobs loads encode_error agent query filename pages limit
        = Inl (HTTPException 500)"
    if v: "1 \<le> limit" "limit \<le> 50" "suffix ''.pdf'' filename"
      "extract_text_from_pdf pages = Inr cv_text" "agent cv_text = Inr response_text"
      and l: "loads (clean_response response_text) = Inr w" "\<forall>items. w \<noteq> JObj items"
    using upload_parse_error [where agent = agent and cv_text = cv_text, OF v c [OF l]] .
  from a b c d e show ?thesis by blast
qed

theorem parsed_skills_default_witness:
  "(1::int) \<le> 10 \<and> (10::int) \<le> 50 \<and> suffix ''.pdf'' ''cv.pdf''
   \<and> extract_text_from_pdf (Some [''Python developer'']) = Inr ''Python developer''
   \<and> answering ''```json {} ```'' ''Python developer'' = Inr ''```json {} ```''
   \<and> sample_loads (clean_response ''```json {} ```'') = Inr (JObj [])
   \<and> map_of ([] :: (string \<times> json) list) ''skills'' = None
   \<and> parse_ai_response sample_loads ''```json {} ```'' = Inr (JObj [], JArr [])
   \<and> upload_cv_and_get_jobs sample_loads no_encode_error (answering ''```json {} ```'') empty_store
        ''cv.pdf'' (Some [''Python developer'']) 10
       = Inr (no_skills_content (JObj []))"
proof -
  have a: "answering ''```json {} ```'' ''Python developer'' = Inr ''```json {} ```''"
    by (simp add: answering_def)
  have h: "sample_loads (clean_response ''```json {} ```'') = Inr (JObj [])" by code_simp
  have m: "map_of ([] :: (string \<times> json) list) ''skills'' = None" by simp
  from parsed_skills_default [of sample_loads "''```json {} ```''" "[]" _ _ 10 "''cv.pdf''"
      "Some [''Python developer'']" "''Python developer''" "answering ''```json {} ```''"
      no_encode_error empty_store]
    sample_request a h m
  show ?thesis by (simp add: no_encode_error_def)
qed

text \<open>
  The claim as stated fails for an answer that parses as JSON and is not an object:
  the answer \<open>[]\<close> has no entry \<open>skills\<close>, and the request fails with status 500.
\<close>

theorem parsed_skills_default_counterexample:
  "clean_response ''[]'' = ''[]''
   \<and> sample_loads (clean_response ''[]'') = Inr (JArr [])
   \<and> parse_ai_response sample_loads ''[]'' = Inl AttributeError
   \<and> upload_cv_and_get_jobs sample_loads no_encode_error (answering ''[]'') empty_store
        ''cv.pdf'' (Some [''Python developer'']) 10
       = Inl (HTTPException 500)"
  by code_simp

section \<open>No skills extracted\<close>

lemma found_message_differs: "found_message n \<noteq> no_skills_message"
  by (simp add: found_message_def no_skills_message_def)

lemma found_message_zero: "found_message 0 = ''Found 0 matching jobs for your profile!''"
  by code_simp

lemma find_matching_jobs_truthy:
  assumes "truthy skills"
    and "find_matching_jobs encode_error query cv_analysis skills limit = Inr response"
  shows "\<exists>kws jobs review. keywords_of skills = Inr kws \<and> query kws (limit * 3) = Inr jobs
      \<and> response = complete_content review (job_recommendations kws jobs limit)"
  using assms
  by (auto simp: find_matching_jobs_def json_response_def Let_def
      split: sum.splits if_splits option.splits)

lemma upload_truthy:
  assumes "1 \<le> limit" and "limit \<le> 50" and "suffix ''.pdf'' filename"
    and "extract_text_from_pdf pages = Inr cv_text" and "agent cv_text = Inr response_text"
    and "parse_ai_response loads response_text = Inr (cv_analysis, skills)"
    and "truthy skills"
    and "upload_cv_and_get_jobs loads encode_error agent query filename pages limit = Inr response"
  shows "\<exists>kws jobs review. keywords_of skills = Inr kws \<and> query kws (limit * 3) = Inr jobs
      \<and> response = complete_content review (job_recommendations kws jobs limit)"
proof -
  from assms(8) assms(6)
  have "find_matching_jobs encode_error query cv_analysis skills limit = Inr response"
    unfolding upload_valid [where agent = agent and cv_text = cv_text, OF assms(1-5)]
    by (simp split: sum.splits)
  with assms(7) show ?thesis by (rule find_matching_jobs_truthy)
qed

text \<open>
  Claim C6, as the code has it. In a valid request whose extracted skills are empty
  (the empty list, or any other falsy value), the handler answers with the analysis
  under \<open>cv_review\<close>, the empty list under \<open>matching_jobs\<close> and the message \<open>No skills
  extracted - unable to match jobs\<close>, provided the analysis holds no number that is not
  finite and the encoder raises nothing; otherwise it answers with status 500. Every
  response of a request whose skills are not empty differs from every such response:
  its message is \<open>Found n matching jobs for your profile!\<close>, it has the entry \<open>success\<close>
  and no entry \<open>matching_jobs\<close>; when no posting matched, the message is \<open>Found 0
  matching jobs for your profile!\<close> and the recommendations are empty.
\<close>

theorem no_skills_response:
  "(1 \<le> limit \<and> limit \<le> 50 \<and> suffix ''.pdf'' filename
      \<and> extract_text_from_pdf pages = Inr cv_text \<and> agent cv_text = Inr response_text
      \<and> parse_ai_response loads response_text = Inr (cv_analysis, skills) \<longrightarrow>
      (\<not> truthy skills \<longrightarrow>
         upload_cv_and_get_jobs loads encode_error agent query filename pages limit =
           (if finite_json cv_analysis
            then (case encode_error (no_skills_content cv_analysis) of
                    Some e \<Rightarrow> Inl (HTTPException 500)
                  | None \<Rightarrow> Inr (no_skills_content cv_analysis))
            else Inl (HTTPException 500)))
    \<and> (truthy skills
         \<and> upload_cv_and_get_jobs loads encode_error agent query filename pages limit = Inr response \<longrightarrow>
           response \<noteq> no_skills_content other_analysis
         \<and> dict_get response ''message'' JNull
             \<noteq> Inr (JStr ''No skills extracted - unable to match jobs'')
         \<and> (\<exists>n. dict_get response ''message'' JNull = Inr (JStr (found_message n)))
         \<and> dict_get response ''success'' JNull = Inr (JBool True)
         \<and> dict_get response ''matching_jobs'' JNull = Inr JNull)
    \<and> (truthy skills \<and> keywords_of skills = Inr kws \<and> query kws (limit * 3) = Inr jobs
         \<and> job_recommendations kws jobs limit = []
         \<and> upload_cv_and_get_jobs loads encode_error agent query filename pages limit = Inr response \<longrightarrow>
           dict_get response ''message'' JNull
             = Inr (JStr ''Found 0 matching jobs for your profile!'')
         \<and> dict_get response ''job_recommendations'' JNull
             = Inr (JObj [(''total_matches'', JInt 0), (''jobs'', JArr [])])))
   \<and> \<not> truthy (JArr [])
   \<and> no_skills_content cv
       = JObj [(''cv_review'', cv), (''matching_jobs'', JArr []),
               (''message'', JStr ''No skills extracted - unable to match jobs'')]"
proof -
  have ns: "no_skills_content cv
       = JObj [(''cv_review'', cv), (''matching_jobs'', JArr []),
               (''message'', JStr ''No skills extracted - unable to match jobs'')]" for cv
    by (simp add: no_skills_content_def no_skills_message_def)
  have run: "(\<not> truthy skills \<longrightarrow>
         upload_cv_and_get_jobs loads encode_error agent query filename pages limit =
           (if finite_json cv_analysis
            then (case encode_error (no_skills_content cv_analysis) of
                    Some e \<Rightarrow> Inl (HTTPException 500)
                  | None \<Rightarrow> Inr (no_skills_content cv_analysis))
            else Inl (HTTPException 500)))
    \<and> (truthy skills
         \<and> upload_cv_and_get_jobs loads encode_error agent query filename pages limit = Inr response \<longrightarrow>
           response \<noteq> no_skills_content other_analysis
         \<and> dict_get response ''message'' JNull
             \<noteq> Inr (JStr ''No skills extracted - unable to match jobs'')
         \<and> (\<exists>n. dict_get response ''message'' JNull = Inr (JStr (found_message n)))
         \<and> dict_get response ''success'' JNull = Inr (JBool True)
         \<and> dict_get response ''matching_jobs'' JNull = Inr JNull)
    \<and> (truthy skills \<and> keywords_of skills = Inr kws \<and> query kws (limit * 3) = Inr jobs
         \<and> job_recommendations kws jobs limit = []
         \<and> upload_cv_and_get_jobs loads encode_error agent query filename pages limit = Inr response \<longrightarrow>
           dict_get response ''message'' JNull
             = Inr (JStr ''Found 0 matching jobs for your profile!'')
         \<and> dict_get response ''job_recommendations'' JNull
             = Inr (JObj [(''total_matches'', JInt 0), (''jobs'', JArr [])]))"
    if v: "1 \<le> limit" "limit \<le> 50" "suffix ''.pdf'' filename"
      "extract_text_from_pdf pages = Inr cv_text" "agent cv_text = Inr response_text"
      and p: "parse_ai_response loads response_text = Inr (cv_analysis, skills)"
  proof -
    have a: "upload_cv_and_get_jobs loads encode_error agent query filename pages limit =
           (if finite_json cv_analysis
            then (case encode_error (no_skills_content cv_analysis) of
                    Some e \<Rightarrow> Inl (HTTPException 500)
                  | None \<Rightarrow> Inr (no_skills_content cv_analysis))
            else Inl (HTTPException 500))" if "\<not> truthy skills"
      using upload_no_skills [where agent = agent and cv_text = cv_text and loads = loads
        and encode_error = encode_error and query = query, OF v p that] .
    have shape: "\<exists>kws' jobs' review. keywords_of skills = Inr kws' \<and> query kws' (limit * 3) = Inr jobs'
        \<and> response = complete_content review (job_recommendations kws' jobs' limit)"
      if "truthy skills"
        "upload_cv_and_get_jobs loads encode_error agent query filename pages limit = Inr response"
      using upload_truthy [where agent = agent and cv_text = cv_text and loads = loads
        and encode_error = encode_error and query = query, OF v p that] .
    have b: "response \<noteq> no_skills_content other_analysis
         \<and> dict_get response ''message'' JNull
             \<noteq> Inr (JStr ''No skills extracted - unable to match jobs'')
         \<and> (\<exists>n. dict_get response ''message'' JNull = Inr (JStr (found_message n)))
         \<and> dict_get response ''success'' JNull = Inr (JBool True)
         \<and> dict_get response ''matching_jobs'' JNull = Inr JNull"
      if t: "truthy skills"
        "upload_cv_and_get_jobs loads encode_error agent query filename pages limit = Inr response"
    proof -
      from shape [OF t] obtain review jm where r: "response = complete_content review jm" by blast
      have m: "dict_get response ''message'' JNull = Inr (JStr (found_message (length jm)))"
        by (simp add: r complete_content_def)
      have "found_message (length jm) \<noteq> ''No skills extracted - unable to match jobs''"
        using found_message_differs [of "length jm"] unfolding no_skills_message_def .
      with m have "dict_get response ''message'' JNull
             \<noteq> Inr (JStr ''No skills extracted - unable to match jobs'')" by simp
      moreover have "response \<noteq> no_skills_content other_analysis"
        by (simp add: r complete_content_def ns)
      moreover have "dict_get response ''success'' JNull = Inr (JBool True)"
        by (simp add: r complete_content_def)
      moreover have "dict_get response ''matching_jobs'' JNull = Inr JNull"
        by (simp add: r complete_content_def)
      ultimately show ?thesis using m by blast
    qed
    have c: "dict_get response ''message'' JNull
             = Inr (JStr ''Found 0 matching jobs for your profile!'')
         \<and> dict_get response ''job_recommendations'' JNull
             = Inr (JObj [(''total_matches'', JInt 0), (''jobs'', JArr [])])"
      if t: "truthy skills"
        "upload_cv_and_get_jobs loads encode_error agent query filename pages limit = Inr response"
        and z: "keywords_of skills = Inr kws" "query kws (limit * 3) = Inr jobs"
          "job_recommendations kws jobs limit = []"
    proof -
      from shape [OF t] z(1,2) obtain review where
        "response = complete_content review (job_recommendations kws jobs limit)" by auto
      with z(3) have "response = complete_content review []" by simp
      then show ?thesis by (simp add: complete_content_def found_message_zero)
    qed
    from a b c show ?thesis by blast
  qed
  have "\<not> truthy (JArr [])" by simp
  with run ns show ?thesis by blast
qed

theorem no_skills_response_witness:
  "(1::int) \<le> 10 \<and> (10::int) \<le> 50 \<and> suffix ''.pdf'' ''cv.pdf''
   \<and> extract_text_from_pdf (Some [''Python developer'']) = Inr ''Python developer''
   \<and> answering ''{}'' ''Python developer'' = Inr ''{}''
   \<and> parse_ai_response sample_loads ''{}'' = Inr (JObj [], JArr [])
   \<and> \<not> truthy (JArr [])
   \<and> finite_json (JObj [])
   \<and> upload_cv_and_get_jobs sample_loads no_encode_error (answering ''{}'') empty_store
        ''cv.pdf'' (Some [''Python developer'']) 10
       = Inr (JObj [(''cv_review'', JObj []), (''matching_jobs'', JArr []),
                    (''message'', JStr ''No skills extracted - unable to match jobs'')])
   \<and> answering cobol_answer ''Python developer'' = Inr cobol_answer
   \<and> parse_ai_response sample_loads cobol_answer
       = Inr (JObj [(''skills'', JArr [JStr ''Cobol''])], JArr [JStr ''Cobol''])
   \<and> truthy (JArr [JStr ''Cobol''])
   \<and> keywords_of (JArr [JStr ''Cobol'']) = Inr [''cobol'']
   \<and> empty_store [''cobol''] (10 * 3) = Inr []
   \<and> job_recommendations [''cobol''] [] 10 = []
   \<and> upload_cv_and_get_jobs sample_loads no_encode_error (answering cobol_answer) empty_store
        ''cv.pdf'' (Some [''Python developer'']) 10
       = Inr (complete_content
                (JObj [(''summary'', JStr []), (''strengths'', JArr []), (''improvements'', JArr []),
                       (''experience_level'', JStr ''Not specified''),
                       (''extracted_skills'', JArr [JStr ''Cobol''])]) [])
   \<and> dict_get (complete_content
                (JObj [(''summary'', JStr []), (''strengths'', JArr []), (''improvements'', JArr []),
                       (''experience_level'', JStr ''Not specified''),
                       (''extracted_skills'', JArr [JStr ''Cobol''])]) []) ''message'' JNull
       = Inr (JStr ''Found 0 matching jobs for your profile!'')"
proof -
  let ?found = "complete_content
                (JObj [(''summary'', JStr []), (''strengths'', JArr []), (''improvements'', JArr []),
                       (''experience_level'', JStr ''Not specified''),
                       (''extracted_skills'', JArr [JStr ''Cobol''])]) []"
  have a1: "answering ''{}'' ''Python developer'' = Inr ''{}''" by (simp add: answering_def)
  have a2: "answering cobol_answer ''Python developer'' = Inr cobol_answer"
    by (simp add: answering_def)
  have p1: "parse_ai_response sample_loads ''{}'' = Inr (JObj [], JArr [])" by code_simp
  have p2: "parse_ai_response sample_loads cobol_answer
       = Inr (JObj [(''skills'', JArr [JStr ''Cobol''])], JArr [JStr ''Cobol''])" by code_simp
  have t1: "\<not> truthy (JArr [])" and t2: "truthy (JArr [JStr ''Cobol''])" by simp_all
  have k: "keywords_of (JArr [JStr ''Cobol'']) = Inr [''cobol'']" by code_simp
  have q: "empty_store [''cobol''] (10 * 3) = Inr []" by (simp add: empty_store_def)
  have r: "job_recommendations [''cobol''] [] 10 = []" by code_simp
  have u: "upload_cv_and_get_jobs sample_loads no_encode_error (answering cobol_answer) empty_store
        ''cv.pdf'' (Some [''Python developer'']) 10 = Inr ?found" by code_simp
  have f: "finite_json (JObj [])" by simp
  note run1 = no_skills_response [of 10 "''cv.pdf''" "Some [''Python developer'']"
      "''Python developer''" "answering ''{}''" "''{}''" sample_loads "JObj []" "JArr []"
      no_encode_error empty_store]
  note run2 = no_skills_response [of 10 "''cv.pdf''" "Some [''Python developer'']"
      "''Python developer''" "answering cobol_answer" cobol_answer sample_loads
      "JObj [(''skills'', JArr [JStr ''Cobol''])]" "JArr [JStr ''Cobol'']"
      no_encode_error empty_store ?found _ "[''cobol'']" "[]"]
  from run1 sample_request a1 p1 t1 f
  have u1: "upload_cv_and_get_jobs sample_loads no_encode_error (answering ''{}'') empty_store
        ''cv.pdf'' (Some [''Python developer'']) 10
       = Inr (JObj [(''cv_review'', JObj []), (''matching_jobs'', JArr []),
                    (''message'', JStr ''No skills extracted - unable to match jobs'')])"
    by (simp add: no_encode_error_def)
  from run2 sample_request a2 p2 t2 k q r u
  have m: "dict_get ?found ''message'' JNull = Inr (JStr ''Found 0 matching jobs for your profile!'')"
    by blast
  from sample_request a1 a2 p1 p2 t1 t2 k q r u f u1 m show ?thesis by blast
qed

text \<open>
  The claim as stated fails when the analysis holds a number that is not finite: for
  the answer \<open>{"summary": NaN, "skills": []}\<close> the extracted skills list is empty, and
  the request is answered with status 500 instead of the message.
\<close>

theorem no_skills_response_counterexample:
  "sample_loads (clean_response nan_answer)
     = Inr (JObj [(''summary'', JFloat NaN), (''skills'', JArr [])])
   \<and> parse_ai_response sample_loads nan_answer
     = Inr (JObj [(''summary'', JFloat NaN), (''skills'', JArr [])], JArr [])
   \<and> upload_cv_and_get_jobs sample_loads no_encode_error (answering nan_answer) empty_store
        ''cv.pdf'' (Some [''Python developer'']) 10
     = Inl (HTTPException 500)"
  by code_simp

end
